theory Spec2Isabelle
  imports Complex_Main
begin

section \<open>Python values and errors\<close>

text \<open>
  The exceptions the modelled functions can raise.  A function that can raise returns
  \<open>py_error + 'a\<close>, with \<open>Inl\<close> the exception.
\<close>

datatype py_error =
  IndexError | ValueError | ZeroDivisionError | KeyError | StatisticsError | UnboundLocalError

fun bind_err :: "py_error + 'a \<Rightarrow> ('a \<Rightarrow> py_error + 'b) \<Rightarrow> py_error + 'b" where
  "bind_err (Inl e) f = Inl e"
| "bind_err (Inr x) f = f x"

text \<open>A loop body run over a list, left to right, stopping at the first exception.\<close>

fun map_err :: "('a \<Rightarrow> py_error + 'b) \<Rightarrow> 'a list \<Rightarrow> py_error + 'b list" where
  "map_err f [] = Inr []"
| "map_err f (x # xs) =
     bind_err (f x) (\<lambda>y. bind_err (map_err f xs) (\<lambda>ys. Inr (y # ys)))"


text \<open>
  Indexing \<^verbatim>\<open>xs[i]\<close>: a negative index counts from the end, an index out of
  range raises IndexError.
\<close>

definition py_item :: "'a list \<Rightarrow> int \<Rightarrow> py_error + 'a" where
  "py_item xs i =
     (let n = int (length xs); j = (if i < 0 then i + n else i)
      in if 0 \<le> j \<and> j < n then Inr (xs ! nat j) else Inl IndexError)"

text \<open>
  \<^verbatim>\<open>min(items, key=f)\<close> and \<^verbatim>\<open>max(items, key=f)\<close> return the first item
  whose key is least (greatest): a later item replaces the current one only when its key
  is strictly smaller (greater).  Both raise ValueError on an empty sequence.
\<close>

fun py_min_by :: "('a \<Rightarrow> 'k::linorder) \<Rightarrow> 'a list \<Rightarrow> py_error + 'a" where
  "py_min_by key [] = Inl ValueError"
| "py_min_by key (x # xs) = Inr (fold (\<lambda>y m. if key y < key m then y else m) xs x)"

fun py_max_by :: "('a \<Rightarrow> 'k::linorder) \<Rightarrow> 'a list \<Rightarrow> py_error + 'a" where
  "py_max_by key [] = Inl ValueError"
| "py_max_by key (x # xs) = Inr (fold (\<lambda>y m. if key m < key y then y else m) xs x)"

text \<open>\<^verbatim>\<open>xs.index(v)\<close>: the first position of \<open>v\<close>, ValueError when absent.\<close>

fun py_index :: "'a list \<Rightarrow> 'a \<Rightarrow> py_error + nat" where
  "py_index [] v = Inl ValueError"
| "py_index (x # xs) v = (if x = v then Inr 0 else bind_err (py_index xs v) (\<lambda>i. Inr (Suc i)))"

text \<open>
  A dictionary keeps its insertion order, and the code iterates over it, so a dictionary
  is an association list with distinct keys.  \<^verbatim>\<open>d[k]\<close> and \<^verbatim>\<open>del d[k]\<close> raise
  KeyError for a missing key.
\<close>

definition py_lookup :: "('k \<times> 'v) list \<Rightarrow> 'k \<Rightarrow> py_error + 'v" where
  "py_lookup d k = (case map_of d k of None \<Rightarrow> Inl KeyError | Some v \<Rightarrow> Inr v)"

definition py_del :: "('k \<times> 'v) list \<Rightarrow> 'k \<Rightarrow> py_error + ('k \<times> 'v) list" where
  "py_del d k = (if k \<in> fst ` set d then Inr (filter (\<lambda>kv. fst kv \<noteq> k) d) else Inl KeyError)"

subsection \<open>Strings\<close>

text \<open>
  Strings are lists of bytes; the coordinates the code reads and writes are ASCII.
  Whitespace is the ASCII whitespace of \<^verbatim>\<open>str.isspace\<close>.
\<close>

definition is_space :: "char \<Rightarrow> bool" where
  "is_space c = (let n = (of_char c :: nat) in (9 \<le> n \<and> n \<le> 13) \<or> (28 \<le> n \<and> n \<le> 32))"

definition is_digit :: "char \<Rightarrow> bool" where
  "is_digit c = (let n = (of_char c :: nat) in 48 \<le> n \<and> n \<le> 57)"

text \<open>
  \<^verbatim>\<open>int(s)\<close> skips only the whitespace of the C locale around an ASCII string:
  the bytes 9 to 13 and the space.
\<close>

definition is_int_space :: "char \<Rightarrow> bool" where
  "is_int_space c = (let n = (of_char c :: nat) in (9 \<le> n \<and> n \<le> 13) \<or> n = 32)"

text \<open>\<^verbatim>\<open>s.split(sep)\<close> for a one-character separator: empty fields are kept.\<close>

fun py_split :: "char \<Rightarrow> string \<Rightarrow> string list" where
  "py_split sep [] = [[]]"
| "py_split sep (c # cs) =
     (if c = sep then [] # py_split sep cs
      else (case py_split sep cs of w # ws \<Rightarrow> (c # w) # ws | [] \<Rightarrow> [[c]]))"

text \<open>\<^verbatim>\<open>s.split()\<close>: the maximal runs of non-whitespace characters.\<close>

fun py_split_ws :: "string \<Rightarrow> string list" where
  "py_split_ws [] = []"
| "py_split_ws (c # cs) =
     (if is_space c then py_split_ws cs
      else if cs = [] \<or> is_space (hd cs) then [c] # py_split_ws cs
      else (case py_split_ws cs of w # ws \<Rightarrow> (c # w) # ws | [] \<Rightarrow> [[c]]))"

text \<open>
  \<^verbatim>\<open>int(s)\<close> for a string: the whitespace around it is skipped, one sign is
  allowed, then decimal digits, where single underscores may stand between digits.
  Anything else raises ValueError.
\<close>

definition py_strip :: "string \<Rightarrow> string" where
  "py_strip s = rev (dropWhile is_int_space (rev (dropWhile is_int_space s)))"

fun digits_ok :: "string \<Rightarrow> bool" where
  "digits_ok [] = False"
| "digits_ok [c] = is_digit c"
| "digits_ok (c # d # cs) =
     (is_digit c \<and> (if d = CHR ''_'' then digits_ok cs else digits_ok (d # cs)))"

definition digits_val :: "string \<Rightarrow> nat" where
  "digits_val s = fold (\<lambda>c n. 10 * n + (of_char c - 48)) (filter is_digit s) 0"

definition py_int :: "string \<Rightarrow> py_error + int" where
  "py_int s =
     (let t = py_strip s;
          neg = (t \<noteq> [] \<and> hd t = CHR ''-'');
          body = (if t \<noteq> [] \<and> (hd t = CHR ''-'' \<or> hd t = CHR ''+'') then tl t else t)
      in if digits_ok body
         then Inr (if neg then - int (digits_val body) else int (digits_val body))
         else Inl ValueError)"

text \<open>\<^verbatim>\<open>str(i)\<close>, as an f-string formats an integer.\<close>

fun str_nat :: "nat \<Rightarrow> string" where
  "str_nat n =
     (if n < 10 then [char_of (48 + n)] else str_nat (n div 10) @ [char_of (48 + n mod 10)])"

declare str_nat.simps [simp del]

definition py_str :: "int \<Rightarrow> string" where
  "py_str i = (if i < 0 then CHR ''-'' # str_nat (nat (- i)) else str_nat (nat i))"

subsection \<open>Numbers\<close>

text \<open>
  \<^verbatim>\<open>statistics.mean\<close> of integers is their exact mean (an \<open>int\<close> when the division is
  exact, otherwise the nearest float), and the code goes on with \<open>%\<close>, \<open>//\<close>,
  \<open>math.sqrt\<close> and \<open>int()\<close> on it.  Floats are modelled by the reals they stand for:
  rounding is not part of the model.  For a positive divisor, \<open>x // y\<close> is the floor of
  the quotient and \<open>x % y\<close> the non-negative remainder; \<open>int(x)\<close> truncates towards
  zero.
\<close>

definition py_mean :: "int list \<Rightarrow> py_error + real" where
  "py_mean ys =
     (if ys = [] then Inl StatisticsError
      else Inr (real_of_int (sum_list ys) / real (length ys)))"

definition py_floordiv :: "real \<Rightarrow> real \<Rightarrow> real" where
  "py_floordiv x y = of_int \<lfloor>x / y\<rfloor>"

definition py_mod :: "real \<Rightarrow> real \<Rightarrow> real" where
  "py_mod x y = x - y * of_int \<lfloor>x / y\<rfloor>"

definition py_trunc :: "real \<Rightarrow> int" where
  "py_trunc x = (if 0 \<le> x then \<lfloor>x\<rfloor> else \<lceil>x\<rceil>)"

section \<open>Geometry helpers\<close>

text \<open>\<^verbatim>\<open>get_coord(point)\<close>: the comma-separated fields of a token, unchecked.\<close>

definition get_coord :: "string \<Rightarrow> string list" where
  "get_coord point = py_split (CHR '','') point"

definition get_baseline_length :: "real \<Rightarrow> real \<Rightarrow> real \<Rightarrow> real \<Rightarrow> real" where
  "get_baseline_length x1 y1 x2 y2 = sqrt (((x1 - x2) ^ 2) + ((y1 - y2) ^ 2))"

text \<open>
  \<^verbatim>\<open>get_y_avg(coords)\<close>: each token is split, its field 1 is read (IndexError when
  there is none) and converted (ValueError), and the mean is taken.
\<close>

definition get_y_avg :: "string list \<Rightarrow> py_error + real" where
  "get_y_avg coords =
     bind_err (map_err (\<lambda>coord. bind_err (py_item (get_coord coord) 1) py_int) coords)
       (\<lambda>ys. py_mean ys)"

text \<open>
  The quantisation at the end of \<^verbatim>\<open>get_line_indicator\<close>, as a function of
  \<^verbatim>\<open>y_mean\<close>.  The repository has the function twice: with a grid of 60 in
  \<^verbatim>\<open>make_training_data.py\<close> and with a grid of 100 in the other file (suffix
  \<open>_p0\<close> here).  The threshold 30 is the same literal in both.
\<close>

definition line_indicator_of :: "real \<Rightarrow> real" where
  "line_indicator_of y_mean =
     (if py_mod y_mean 60 > 30 then (py_floordiv y_mean 60 + 1) * 60
      else (py_floordiv y_mean 60) * 60)"

definition line_indicator_of_p0 :: "real \<Rightarrow> real" where
  "line_indicator_of_p0 y_mean =
     (if py_mod y_mean 100 > 30 then (py_floordiv y_mean 100 + 1) * 100
      else (py_floordiv y_mean 100) * 100)"

definition get_line_indicator :: "string list \<Rightarrow> py_error + real" where
  "get_line_indicator coords =
     bind_err (map_err (\<lambda>coord. bind_err (py_item (get_coord coord) 1) py_int) coords)
       (\<lambda>ys. bind_err (py_mean ys) (\<lambda>y_mean. Inr (line_indicator_of y_mean)))"

definition get_line_indicator_p0 :: "string list \<Rightarrow> py_error + real" where
  "get_line_indicator_p0 coords =
     bind_err (map_err (\<lambda>coord. bind_err (py_item (get_coord coord) 1) py_int) coords)
       (\<lambda>ys. bind_err (py_mean ys) (\<lambda>y_mean. Inr (line_indicator_of_p0 y_mean)))"

text \<open>
  \<^verbatim>\<open>get_poly_coord(poly)\<close>: every token is split at the commas and its fields 0 and
  1 are converted, in this order.
\<close>

definition get_poly_coord :: "string list \<Rightarrow> py_error + (int \<times> int) list" where
  "get_poly_coord poly =
     map_err (\<lambda>point.
        let p = py_split (CHR '','') point
        in bind_err (py_item p 0) (\<lambda>f0. bind_err (py_int f0) (\<lambda>x.
           bind_err (py_item p 1) (\<lambda>f1. bind_err (py_int f1) (\<lambda>y. Inr (x, y)))))) poly"

section \<open>Average height of a polygon\<close>

text \<open>
  \<^verbatim>\<open>get_avg_height(poly)\<close>: the vertex \<open>i\<close> is paired with the vertex
  \<open>num_points - 1 - i\<close>, the differences of their \<open>y\<close> are summed and the sum is
  floor-divided by the number of pairs.  Python's \<open>//\<close> on integers is \<open>div\<close> on
  \<open>int\<close>, and raises ZeroDivisionError for a zero divisor.
\<close>

definition get_avg_height :: "(int \<times> int) list \<Rightarrow> py_error + int" where
  "get_avg_height poly =
     (let num_points = length poly;
          num_pairs = num_points div 2;
          sum_height = fold (\<lambda>i s. s + (snd (poly ! i) - snd (poly ! (num_points - 1 - i))))
                         [0..<num_pairs] 0
      in if num_pairs = 0 then Inl ZeroDivisionError
         else Inr (sum_height div int num_pairs))"

section \<open>Detection extraction\<close>

text \<open>
  The parsed document, as \<^verbatim>\<open>create_box\<close> reads it: the \<^verbatim>\<open>TextRegion\<close>
  elements in document order, each with the \<^verbatim>\<open>points\<close> of its
  \<^verbatim>\<open>Coords\<close> and its \<^verbatim>\<open>TextLine\<close> elements, each of them with the
  \<^verbatim>\<open>points\<close> of its \<^verbatim>\<open>Coords\<close> and of its \<^verbatim>\<open>Baseline\<close>.
  The XML parser itself is outside the model.
\<close>

record text_line =
  line_coords :: string
  line_baseline :: string

record text_region =
  region_coords :: string
  region_lines :: "text_line list"

text \<open>The dictionary that \<^verbatim>\<open>create_box\<close> builds for one detection.\<close>

record box =
  bl_start_x :: int
  bl_start_y :: int
  bl_end_x :: int
  bl_end_y :: int
  bl_length :: real
  avg_height :: int
  line_indicator :: int
  left_border :: int
  right_border :: int

text \<open>\<^verbatim>\<open>max(len_lines)\<close> raises ValueError when there is no region.\<close>

definition get_main_region :: "text_region list \<Rightarrow> py_error + nat" where
  "get_main_region regions =
     (let len_lines = map (\<lambda>region. length (region_lines region)) regions
      in if len_lines = [] then Inl ValueError
         else py_index len_lines (fold max (tl len_lines) (hd len_lines)))"

text \<open>
  The body of the loop of \<^verbatim>\<open>create_box\<close> for one \<^verbatim>\<open>TextLine\<close>, in the
  order in which the code evaluates it.  No exception is caught here.
\<close>

definition create_box_line :: "string \<Rightarrow> string \<Rightarrow> text_line \<Rightarrow> py_error + box" where
  "create_box_line left_border_s right_border_s line =
     bind_err (get_poly_coord (py_split_ws (line_coords line))) (\<lambda>poly_coords.
     bind_err (get_avg_height poly_coords) (\<lambda>avg_height_v.
     let baseline_coords = py_split_ws (line_baseline line) in
     bind_err (py_item baseline_coords 0) (\<lambda>c0.
     let start_base_point = get_coord c0 in
     bind_err (py_item baseline_coords (- 1)) (\<lambda>c1.
     let end_base_point = get_coord c1 in
     bind_err (get_y_avg baseline_coords) (\<lambda>base_y_avg.
     bind_err (get_line_indicator baseline_coords) (\<lambda>line_indicator_v.
     bind_err (py_item start_base_point 0) (\<lambda>sx_s.
     bind_err (py_int sx_s) (\<lambda>sx.
     bind_err (py_item end_base_point 0) (\<lambda>ex_s.
     bind_err (py_int ex_s) (\<lambda>ex.
     bind_err (py_int left_border_s) (\<lambda>lb.
     bind_err (py_int right_border_s) (\<lambda>rb.
       Inr \<lparr> bl_start_x = sx,
             bl_start_y = py_trunc base_y_avg,
             bl_end_x = ex,
             bl_end_y = py_trunc base_y_avg,
             bl_length = get_baseline_length (real_of_int sx) base_y_avg (real_of_int ex) base_y_avg,
             avg_height = avg_height_v,
             line_indicator = py_trunc line_indicator_v,
             left_border = lb,
             right_border = rb \<rparr>))))))))))))"

text \<open>
  \<^verbatim>\<open>create_box\<close>.  Only the call of \<^verbatim>\<open>get_main_region\<close> is inside a
  \<^verbatim>\<open>try\<close>: when it raises, the empty dictionary is returned.  The keys are
  \<^verbatim>\<open>box0\<close>, \<^verbatim>\<open>box1\<close>, ... in the order of the lines.
\<close>

definition create_box :: "text_region list \<Rightarrow> py_error + (string \<times> box) list" where
  "create_box regions =
     (case get_main_region regions of
        Inl e \<Rightarrow> Inr []
      | Inr main_region \<Rightarrow>
          bind_err (py_item regions (int main_region)) (\<lambda>region.
          let lines = region_lines region;
              region_borders = py_split_ws (region_coords region) in
          bind_err (py_item region_borders 0) (\<lambda>b0.
          bind_err (py_item (get_coord b0) 0) (\<lambda>left_border_s.
          bind_err (py_item region_borders 3) (\<lambda>b3.
          bind_err (py_item (get_coord b3) 0) (\<lambda>right_border_s.
          bind_err (map_err (create_box_line left_border_s right_border_s) lines) (\<lambda>bs.
            Inr (zip (map (\<lambda>i. ''box'' @ py_str (int i)) [0..<length bs]) bs))))))))"

section \<open>Line simplification\<close>

text \<open>The value that \<^verbatim>\<open>line_simplification\<close> stores under the key of a line.\<close>

record line =
  bl_points :: string
  poly_coord :: string

text \<open>A token \<^verbatim>\<open>x,y\<close> as the f-strings write it.\<close>

definition xy_token :: "int \<Rightarrow> int \<Rightarrow> string" where
  "xy_token x y = py_str x @ '','' @ py_str y"

text \<open>
  \<^verbatim>\<open>line_simplification(sub_box, line_num)\<close> of \<^verbatim>\<open>make_training_data.py\<close>:
  the polygon is the band of 25 units above and below \<^verbatim>\<open>y_avg\<close> between the region
  borders.  The result \<open>None\<close> is Python's \<^verbatim>\<open>None\<close>; \<^verbatim>\<open>min\<close> and
  \<^verbatim>\<open>max\<close> raise ValueError on an empty \<^verbatim>\<open>sub_box\<close>.
\<close>

definition line_simplification ::
    "(string \<times> box) list \<Rightarrow> nat \<Rightarrow> py_error + (string \<times> line) option" where
  "line_simplification sub_box line_num =
     bind_err (py_min_by (\<lambda>x. bl_start_x (snd x)) sub_box) (\<lambda>min_start.
     bind_err (py_max_by (\<lambda>x. bl_end_x (snd x)) sub_box) (\<lambda>max_end.
     bind_err (py_max_by (\<lambda>x. bl_length (snd x)) sub_box) (\<lambda>longest_baseline.
     let start = bl_start_x (snd min_start);
         end_x = bl_end_x (snd max_end);
         left_edge = left_border (snd min_start);
         right_edge = right_border (snd max_end);
         height = avg_height (snd longest_baseline);
         y_avg = bl_start_y (snd longest_baseline);
         line_indicator_v = line_indicator (snd longest_baseline);
         poly_x1 = left_edge;
         poly_y1 = y_avg - 25;
         poly_x2 = right_edge;
         poly_y2 = y_avg - 25;
         poly_x3 = right_edge;
         poly_y3 = y_avg + 25;
         poly_x4 = left_edge;
         poly_y4 = y_avg + 25;
         baseline_length = get_baseline_length (real_of_int start) (real_of_int y_avg)
                             (real_of_int end_x) (real_of_int y_avg)
     in if baseline_length > 400 \<and> line_indicator_v \<noteq> 0
        then Inr (Some (''l'' @ py_str (int line_num),
               \<lparr> bl_points = xy_token left_edge y_avg @ '' '' @ xy_token right_edge y_avg,
                 poly_coord = xy_token poly_x4 poly_y4 @ '' '' @ xy_token poly_x3 poly_y3 @ '' ''
                              @ xy_token poly_x2 poly_y2 @ '' '' @ xy_token poly_x1 poly_y1 \<rparr>))
        else Inr None)))"

text \<open>
  The other file's \<^verbatim>\<open>line_simplification\<close>: the polygon lies between the
  cluster's own \<^verbatim>\<open>start\<close> and \<^verbatim>\<open>end\<close>, its upper edge at
  \<^verbatim>\<open>int(y_avg - height*1.25)\<close> and its lower edge at \<^verbatim>\<open>y_avg + height//2\<close>.
  Its boxes have no border entries, and it reads none.
\<close>

definition line_simplification_p0 ::
    "(string \<times> box) list \<Rightarrow> nat \<Rightarrow> py_error + (string \<times> line) option" where
  "line_simplification_p0 sub_box line_num =
     bind_err (py_min_by (\<lambda>x. bl_start_x (snd x)) sub_box) (\<lambda>min_start.
     bind_err (py_max_by (\<lambda>x. bl_end_x (snd x)) sub_box) (\<lambda>max_end.
     bind_err (py_max_by (\<lambda>x. bl_length (snd x)) sub_box) (\<lambda>longest_baseline.
     let start = bl_start_x (snd min_start);
         end_x = bl_end_x (snd max_end);
         height = avg_height (snd longest_baseline);
         y_avg = bl_start_y (snd longest_baseline);
         line_indicator_v = line_indicator (snd longest_baseline);
         poly_x1 = start;
         poly_y1 = py_trunc (real_of_int y_avg - real_of_int height * 1.25);
         poly_x2 = end_x;
         poly_y2 = py_trunc (real_of_int y_avg - real_of_int height * 1.25);
         poly_x3 = end_x;
         poly_y3 = y_avg + height div 2;
         poly_x4 = start;
         poly_y4 = y_avg + height div 2;
         baseline_length = get_baseline_length (real_of_int start) (real_of_int y_avg)
                             (real_of_int end_x) (real_of_int y_avg)
     in if baseline_length > 400 \<and> line_indicator_v \<noteq> 0
        then Inr (Some (''l'' @ py_str (int line_num),
               \<lparr> bl_points = xy_token start y_avg @ '' '' @ xy_token end_x y_avg,
                 poly_coord = xy_token poly_x4 poly_y4 @ '' '' @ xy_token poly_x3 poly_y3 @ '' ''
                              @ xy_token poly_x2 poly_y2 @ '' '' @ xy_token poly_x1 poly_y1 \<rparr>))
        else Inr None)))"

section \<open>Overlap removal\<close>

text \<open>
  \<^verbatim>\<open>get_start_y(poly)\<close>: the last comma-separated field of the last
  space-separated token, still a string.
\<close>

definition get_start_y :: "string \<Rightarrow> py_error + string" where
  "get_start_y poly =
     (let coords = py_split (CHR '' '') poly in
      bind_err (py_item coords (- 1)) (\<lambda>start_coords.
      let start_x_y = py_split (CHR '','') start_coords in
      py_item start_x_y (- 1)))"

text \<open>
  The first loop of \<^verbatim>\<open>rm_overlap\<close> over \<^verbatim>\<open>enumerate(sim_box.items())\<close>.
  \<^verbatim>\<open>prev_key\<close> is unbound before the first pass; the pass with \<open>i = 0\<close> binds it.
  The \<^verbatim>\<open>print\<close> of the key is left out.
\<close>

fun rm_overlap_loop ::
    "(string \<times> line) list \<Rightarrow> (nat \<times> string \<times> line) list \<Rightarrow> string option \<Rightarrow> string list
      \<Rightarrow> py_error + string list" where
  "rm_overlap_loop sim_box [] prev_key rm_key = Inr rm_key"
| "rm_overlap_loop sim_box ((i, key, box) # rest) prev_key rm_key =
     (if i = 0 then rm_overlap_loop sim_box rest (Some key) rm_key
      else
        bind_err (case prev_key of None \<Rightarrow> Inl UnboundLocalError | Some k \<Rightarrow> Inr k) (\<lambda>pk.
        bind_err (py_lookup sim_box pk) (\<lambda>prev_box.
        bind_err (bind_err (get_start_y (poly_coord prev_box)) py_int) (\<lambda>prev_y.
        bind_err (bind_err (get_start_y (poly_coord box)) py_int) (\<lambda>cur_y.
          rm_overlap_loop sim_box rest (Some key)
            (if cur_y - prev_y < 40 then rm_key @ [pk] else rm_key))))))"

text \<open>The second loop: \<^verbatim>\<open>del sim_box[key]\<close> for every collected key, in order.\<close>

fun rm_overlap_del :: "(string \<times> line) list \<Rightarrow> string list \<Rightarrow> py_error + (string \<times> line) list" where
  "rm_overlap_del sim_box [] = Inr sim_box"
| "rm_overlap_del sim_box (key # keys) =
     bind_err (py_del sim_box key) (\<lambda>sim_box'. rm_overlap_del sim_box' keys)"

definition rm_overlap :: "(string \<times> line) list \<Rightarrow> py_error + (string \<times> line) list" where
  "rm_overlap sim_box =
     bind_err (rm_overlap_loop sim_box (zip [0..<length sim_box] sim_box) None [])
       (\<lambda>rm_key. rm_overlap_del sim_box rm_key)"

subsection \<open>The overlap removal as a recursion\<close>

text \<open>
  The value \<^verbatim>\<open>int(get_start_y(box["poly_coord"]))\<close> that the loop reads from a
  line: the \<open>y\<close> of the last vertex of its polygon.
\<close>

definition ref_y :: "line \<Rightarrow> py_error + int" where
  "ref_y box = bind_err (get_start_y (poly_coord box)) py_int"

text \<open>The same value for a line whose polygon reads without an exception.\<close>

definition line_y :: "line \<Rightarrow> int" where
  "line_y box = (case ref_y box of Inr v \<Rightarrow> v | Inl e \<Rightarrow> 0)"

text \<open>
  What the two loops compute together, by recursion over the adjacent pairs: the earlier
  line of a pair goes when the later \<open>y\<close> minus the earlier \<open>y\<close> is below 40.
\<close>

fun rm_overlap_pairs :: "(string \<times> line) list \<Rightarrow> (string \<times> line) list" where
  "rm_overlap_pairs (a # b # rest) =
     (if line_y (snd b) - line_y (snd a) < 40 then rm_overlap_pairs (b # rest)
      else a # rm_overlap_pairs (b # rest))"
| "rm_overlap_pairs xs = xs"

text \<open>The keys that the first loop collects after the key \<open>pk\<close> with \<open>y = py\<close>.\<close>

fun marked :: "string \<Rightarrow> int \<Rightarrow> (string \<times> line) list \<Rightarrow> string list" where
  "marked pk py [] = []"
| "marked pk py ((k, b) # rest) =
     (if line_y b - py < 40 then [pk] else []) @ marked k (line_y b) rest"


section \<open>Example inputs\<close>

text \<open>
  Boxes as \<^verbatim>\<open>create_box\<close> builds them, with the region borders 10 and 2000, and
  three clusters: one that gives a line, one that is too short and one of bucket 0.
\<close>

definition ex_box :: "int \<Rightarrow> int \<Rightarrow> int \<Rightarrow> int \<Rightarrow> int \<Rightarrow> box" where
  "ex_box sx ex y h li =
     \<lparr> bl_start_x = sx, bl_start_y = y, bl_end_x = ex, bl_end_y = y,
       bl_length = real_of_int \<bar>sx - ex\<bar>, avg_height = h, line_indicator = li,
       left_border = 10, right_border = 2000 \<rparr>"

definition ex_cluster :: "(string \<times> box) list" where
  "ex_cluster = [(''box0'', ex_box 100 300 500 40 480), (''box1'', ex_box 350 900 503 44 480)]"


definition ex_short_cluster :: "(string \<times> box) list" where
  "ex_short_cluster = [(''box2'', ex_box 100 220 700 40 720)]"

definition ex_zero_cluster :: "(string \<times> box) list" where
  "ex_zero_cluster = [(''box3'', ex_box 100 900 20 40 0)]"

text \<open>
  Lines as \<^verbatim>\<open>line_simplification\<close> writes them for a representative \<open>y\<close>
  between the borders 10 and 2000, and two dictionaries of such lines.
\<close>

definition ex_line :: "int \<Rightarrow> line" where
  "ex_line y =
     \<lparr> bl_points = xy_token 10 y @ '' '' @ xy_token 2000 y,
       poly_coord = xy_token 10 (y + 25) @ '' '' @ xy_token 2000 (y + 25) @ '' ''
                    @ xy_token 2000 (y - 25) @ '' '' @ xy_token 10 (y - 25) \<rparr>"

definition ex_lines_rising :: "(string \<times> line) list" where
  "ex_lines_rising = [(''l0'', ex_line 500), (''l1'', ex_line 530), (''l2'', ex_line 625)]"

definition ex_lines_zigzag :: "(string \<times> line) list" where
  "ex_lines_zigzag = [(''l0'', ex_line 500), (''l1'', ex_line 600), (''l2'', ex_line 510)]"


text \<open>
  A region with one well-formed line, and two lines whose first polygon has a token with
  one field too few or one field too many.
\<close>

definition ex_good_line :: text_line where
  "ex_good_line = \<lparr> line_coords = ''100,520 900,520 900,480 100,480'',
                     line_baseline = ''100,500 500,502 900,501'' \<rparr>"

definition ex_short_field_line :: text_line where
  "ex_short_field_line = \<lparr> line_coords = ''100,620 900,620 900,580 100'',
                            line_baseline = ''100,600 900,600'' \<rparr>"

definition ex_long_field_line :: text_line where
  "ex_long_field_line = \<lparr> line_coords = ''100,620,7 900,620 900,580 100,580'',
                           line_baseline = ''100,600 900,600'' \<rparr>"

definition ex_region :: "text_line list \<Rightarrow> text_region" where
  "ex_region lines = \<lparr> region_coords = ''10,20 10,900 2000,900 2000,20'', region_lines = lines \<rparr>"






section \<open>Properties\<close>

subsection \<open>Results and errors\<close>

lemma bind_err_Inr_iff: "bind_err a f = Inr v \<longleftrightarrow> (\<exists>x. a = Inr x \<and> f x = Inr v)"
  by (cases a) auto

subsection \<open>Quantisation of the mean baseline height\<close>

lemma grid_round_mono:
  assumes b: "0 < b" and le: "y1 \<le> y2"
  shows "(if py_mod y1 b > t then (py_floordiv y1 b + 1) * b else py_floordiv y1 b * b)
       \<le> (if py_mod y2 b > t then (py_floordiv y2 b + 1) * b else py_floordiv y2 b * b)"
    (is "?q y1 \<le> ?q y2")
proof -
  have fl: "\<lfloor>y1 / b\<rfloor> \<le> \<lfloor>y2 / b\<rfloor>"
    using b le by (intro floor_mono) (simp add: divide_right_mono)
  show ?thesis
  proof (cases "\<lfloor>y1 / b\<rfloor> = \<lfloor>y2 / b\<rfloor>")
    case True
    then have "py_mod y1 b \<le> py_mod y2 b" using le by (simp add: py_mod_def)
    with True b show ?thesis by (auto simp: py_floordiv_def)
  next
    case False
    with fl have "\<lfloor>y1 / b\<rfloor> + 1 \<le> \<lfloor>y2 / b\<rfloor>" by simp
    then have "real_of_int \<lfloor>y1 / b\<rfloor> + 1 \<le> real_of_int \<lfloor>y2 / b\<rfloor>" by linarith
    then have "(real_of_int \<lfloor>y1 / b\<rfloor> + 1) * b \<le> real_of_int \<lfloor>y2 / b\<rfloor> * b"
      using b by (simp add: mult_right_mono)
    moreover have "?q y1 \<le> (real_of_int \<lfloor>y1 / b\<rfloor> + 1) * b"
      using b by (auto simp: py_floordiv_def algebra_simps)
    moreover have "real_of_int \<lfloor>y2 / b\<rfloor> * b \<le> ?q y2"
      using b by (auto simp: py_floordiv_def algebra_simps)
    ultimately show ?thesis by linarith
  qed
qed

lemma py_trunc_mono: "x \<le> y \<Longrightarrow> py_trunc x \<le> py_trunc y"
proof -
  assume xy: "x \<le> y"
  show ?thesis
  proof (cases "0 \<le> x")
    case True
    with xy show ?thesis by (simp add: py_trunc_def floor_mono)
  next
    case neg: False
    show ?thesis
    proof (cases "0 \<le> y")
      case True
      have "\<lceil>x\<rceil> \<le> 0" using neg by (simp add: ceiling_le_zero)
      moreover have "0 \<le> \<lfloor>y\<rfloor>" using True by simp
      ultimately have "\<lceil>x\<rceil> \<le> \<lfloor>y\<rfloor>" by linarith
      then show ?thesis using neg True by (simp add: py_trunc_def)
    next
      case False
      with neg xy show ?thesis by (simp add: py_trunc_def ceiling_mono)
    qed
  qed
qed

text \<open>
  C2 (as amended): the bucket is the mean \<open>y\<close> rounded to the grid, upwards when the
  remainder of \<open>y\<close> modulo the grid exceeds the fixed threshold 30, downwards otherwise.
  The threshold is 30% of the grid only for the grid of 100; for the grid of 60 it is the
  same 30, half of the grid.
\<close>

theorem get_line_indicator_threshold:
  assumes "get_y_avg coords = Inr y"
  shows "get_line_indicator coords =
           Inr (if y - 60 * real_of_int \<lfloor>y / 60\<rfloor> > 30
                then (real_of_int \<lfloor>y / 60\<rfloor> + 1) * 60 else real_of_int \<lfloor>y / 60\<rfloor> * 60) \<and>
         get_line_indicator_p0 coords =
           Inr (if y - 100 * real_of_int \<lfloor>y / 100\<rfloor> > 0.3 * 100
                then (real_of_int \<lfloor>y / 100\<rfloor> + 1) * 100 else real_of_int \<lfloor>y / 100\<rfloor> * 100)"
  using assms
  by (auto simp: get_y_avg_def get_line_indicator_def get_line_indicator_p0_def bind_err_Inr_iff
      line_indicator_of_def line_indicator_of_p0_def py_mod_def py_floordiv_def)

theorem get_line_indicator_threshold_witness:
  "get_y_avg [''5,20'', ''9,21''] = Inr (41 / 2) \<and>
   get_line_indicator [''5,20'', ''9,21''] = Inr 0 \<and>
   get_line_indicator_p0 [''5,20'', ''9,21''] = Inr 0"
proof -
  have h: "get_y_avg [''5,20'', ''9,21''] = Inr (41 / 2)"
    by code_simp
  show ?thesis
    using get_line_indicator_threshold [OF h] h by simp
qed

text \<open>
  With the grid of 60 and \<open>y = 20\<close> the remainder 20 exceeds 30% of 60, which is 18,
  and the bucket is 0 all the same, not 60.
\<close>

theorem get_line_indicator_threshold_counterexample:
  "get_y_avg [''5,20'', ''9,20''] = Inr 20 \<and>
   get_line_indicator [''5,20'', ''9,20''] = Inr 0 \<and>
   py_mod 20 60 > 0.3 * 60 \<and>
   (py_floordiv 20 60 + 1) * 60 = 60 \<and>
   get_line_indicator [''5,20'', ''9,20''] \<noteq>
     Inr (if py_mod 20 60 > 0.3 * 60 then (py_floordiv 20 60 + 1) * 60
          else py_floordiv 20 60 * 60)"
  by (simp add: py_mod_def py_floordiv_def) code_simp

text \<open>
  C7: for \<open>y1 < y2\<close> at least one grid step apart, the bucket of \<open>y1\<close> is at most the
  bucket of \<open>y2\<close>, for both grids, also after the conversion to an integer that
  \<^verbatim>\<open>create_box\<close> stores.
\<close>

theorem line_indicator_monotone:
  "(y1 < y2 \<and> 60 \<le> y2 - y1 \<longrightarrow>
      line_indicator_of y1 \<le> line_indicator_of y2 \<and>
      py_trunc (line_indicator_of y1) \<le> py_trunc (line_indicator_of y2)) \<and>
   (y1 < y2 \<and> 100 \<le> y2 - y1 \<longrightarrow>
      line_indicator_of_p0 y1 \<le> line_indicator_of_p0 y2 \<and>
      py_trunc (line_indicator_of_p0 y1) \<le> py_trunc (line_indicator_of_p0 y2))"
proof -
  have a: "line_indicator_of y1 \<le> line_indicator_of y2" if "y1 < y2"
    unfolding line_indicator_of_def using that by (intro grid_round_mono) simp_all
  have b: "line_indicator_of_p0 y1 \<le> line_indicator_of_p0 y2" if "y1 < y2"
    unfolding line_indicator_of_p0_def using that by (intro grid_round_mono) simp_all
  show ?thesis
    using a b by (auto intro: py_trunc_mono)
qed

theorem line_indicator_monotone_witness:
  "line_indicator_of 20 = 0 \<and> line_indicator_of 95 = 120 \<and>
   line_indicator_of_p0 20 = 0 \<and> line_indicator_of_p0 131 = 200 \<and>
   py_trunc (line_indicator_of 20) \<le> py_trunc (line_indicator_of 95) \<and>
   py_trunc (line_indicator_of_p0 20) \<le> py_trunc (line_indicator_of_p0 131)"
  using line_indicator_monotone [of 20 95] line_indicator_monotone [of 20 131]
  by (simp add: line_indicator_of_def line_indicator_of_p0_def py_mod_def py_floordiv_def)

subsection \<open>Minimum and maximum by key\<close>

lemma fold_min_by:
  "fold (\<lambda>y m. if key y < key m then y else m) xs x \<in> set (x # xs) \<and>
   (\<forall>b\<in>set (x # xs). (key (fold (\<lambda>y m. if key y < key m then y else m) xs x) :: 'k::linorder) \<le> key b)"
proof (induction xs arbitrary: x)
  case Nil
  show ?case by simp
next
  case (Cons a xs)
  show ?case
    using Cons.IH [of a] Cons.IH [of x] by (auto simp: not_less)
qed

lemma fold_max_by:
  "fold (\<lambda>y m. if key m < key y then y else m) xs x \<in> set (x # xs) \<and>
   (\<forall>b\<in>set (x # xs). key b \<le> (key (fold (\<lambda>y m. if key m < key y then y else m) xs x) :: 'k::linorder))"
proof (induction xs arbitrary: x)
  case Nil
  show ?case by simp
next
  case (Cons a xs)
  show ?case
    using Cons.IH [of a] Cons.IH [of x] by (auto simp: not_less)
qed

lemma py_min_by_Inr:
  assumes "xs \<noteq> []"
  shows "\<exists>m. py_min_by key xs = Inr m \<and> m \<in> set xs \<and> key m = Min (key ` set xs)"
proof -
  from assms obtain x r where xs: "xs = x # r" by (cases xs) auto
  let ?m = "fold (\<lambda>y m. if key y < key m then y else m) r x"
  have m: "?m \<in> set xs" and le: "\<forall>b\<in>set xs. key ?m \<le> key b"
    using fold_min_by [of key r x] by (simp_all add: xs)
  have "Min (key ` set xs) = key ?m"
    using m le by (intro Min_eqI) auto
  then show ?thesis using m by (simp add: xs)
qed

lemma py_max_by_Inr:
  assumes "xs \<noteq> []"
  shows "\<exists>m. py_max_by key xs = Inr m \<and> m \<in> set xs \<and> key m = Max (key ` set xs)"
proof -
  from assms obtain x r where xs: "xs = x # r" by (cases xs) auto
  let ?m = "fold (\<lambda>y m. if key m < key y then y else m) r x"
  have m: "?m \<in> set xs" and le: "\<forall>b\<in>set xs. key b \<le> key ?m"
    using fold_max_by [of key r x] by (simp_all add: xs)
  have "Max (key ` set xs) = key ?m"
    using m le by (intro Max_eqI) auto
  then show ?thesis using m by (simp add: xs)
qed

lemma get_baseline_length_level: "get_baseline_length x1 y x2 y = \<bar>x1 - x2\<bar>"
  by (simp add: get_baseline_length_def)


subsection \<open>Integers as strings and back\<close>

lemma is_digit_char_of: "k < 10 \<Longrightarrow> is_digit (char_of (48 + (k::nat)))"
  by (simp add: is_digit_def Let_def)

lemma str_nat_digits: "str_nat n \<noteq> [] \<and> (\<forall>c\<in>set (str_nat n). is_digit c)"
proof (induction n rule: str_nat.induct)
  case (1 n)
  show ?case
  proof (cases "n < 10")
    case True
    then show ?thesis by (simp add: str_nat.simps [of n] is_digit_char_of)
  next
    case False
    with 1 show ?thesis by (simp add: str_nat.simps [of n] is_digit_char_of)
  qed
qed

lemma digits_val_snoc:
  "is_digit c \<Longrightarrow> digits_val (s @ [c]) = 10 * digits_val s + (of_char c - 48)"
  by (simp add: digits_val_def)

lemma digits_val_single: "is_digit c \<Longrightarrow> digits_val [c] = of_char c - 48"
  by (simp add: digits_val_def)

lemma digits_val_str_nat: "digits_val (str_nat n) = n"
proof (induction n rule: str_nat.induct)
  case (1 n)
  show ?case
  proof (cases "n < 10")
    case True
    then show ?thesis
      by (simp add: str_nat.simps [of n] digits_val_single is_digit_char_of)
  next
    case False
    have d: "is_digit (char_of (48 + n mod 10))" by (simp add: is_digit_char_of)
    have "digits_val (str_nat n) = 10 * digits_val (str_nat (n div 10)) + n mod 10"
      using False by (simp add: str_nat.simps [of n] digits_val_snoc [OF d])
    with 1 False show ?thesis by simp
  qed
qed

lemma digits_ok_all: "s \<noteq> [] \<Longrightarrow> \<forall>c\<in>set s. is_digit c \<Longrightarrow> digits_ok s"
proof (induction s rule: digits_ok.induct)
  case 1
  then show ?case by simp
next
  case (2 c)
  then show ?case by simp
next
  case (3 c d cs)
  then have "d \<noteq> CHR ''_''" by (auto simp: is_digit_def)
  with 3 show ?case by simp
qed

lemma dropWhile_none: "\<forall>x\<in>set xs. \<not> P x \<Longrightarrow> dropWhile P xs = xs"
  by (cases xs) auto

lemma int_space_is_space: "is_int_space c \<Longrightarrow> is_space c"
  by (auto simp: is_int_space_def is_space_def Let_def)

lemma py_strip_none: "\<forall>c\<in>set s. \<not> is_space c \<Longrightarrow> py_strip s = s"
proof -
  assume "\<forall>c\<in>set s. \<not> is_space c"
  then have "\<forall>c\<in>set s. \<not> is_int_space c"
    using int_space_is_space by blast
  then show ?thesis
    by (simp add: py_strip_def dropWhile_none)
qed

lemma digit_not_space: "is_digit c \<Longrightarrow> \<not> is_space c"
  by (auto simp: is_digit_def is_space_def Let_def)

lemma digit_not_sep:
  "is_digit c \<Longrightarrow> c \<noteq> CHR '','' \<and> c \<noteq> CHR '' '' \<and> c \<noteq> CHR ''-'' \<and> c \<noteq> CHR ''+''"
  by (auto simp: is_digit_def Let_def)

lemma minus_not_space: "\<not> is_space (CHR ''-'')"
  by (simp add: is_space_def Let_def)

lemma py_str_chars:
  "py_str i \<noteq> [] \<and> (\<forall>c\<in>set (py_str i). \<not> is_space c \<and> c \<noteq> CHR '','' \<and> c \<noteq> CHR '' '')"
  using str_nat_digits [of "nat i"] str_nat_digits [of "nat (- i)"]
  by (auto simp: py_str_def digit_not_space digit_not_sep minus_not_space)

lemma py_int_py_str: "py_int (py_str i) = Inr i"
proof (cases "i < 0")
  case True
  let ?d = "str_nat (nat (- i))"
  have s: "py_strip (py_str i) = py_str i"
    using py_str_chars [of i] by (intro py_strip_none) simp
  have ok: "digits_ok ?d"
    using str_nat_digits [of "nat (- i)"] by (intro digits_ok_all) simp_all
  show ?thesis
    using True ok by (simp add: py_int_def s Let_def) (simp add: py_str_def digits_val_str_nat)
next
  case False
  let ?d = "str_nat (nat i)"
  have s: "py_strip (py_str i) = py_str i"
    using py_str_chars [of i] by (intro py_strip_none) simp
  have ok: "digits_ok ?d"
    using str_nat_digits [of "nat i"] by (intro digits_ok_all) simp_all
  have ne: "?d \<noteq> []" and dg: "is_digit (hd ?d)"
    using str_nat_digits [of "nat i"] by simp_all
  have hd: "hd ?d \<noteq> CHR ''-''" "hd ?d \<noteq> CHR ''+''"
    using digit_not_sep [OF dg] by simp_all
  show ?thesis
    using False ok ne hd by (simp add: py_int_def s Let_def) (simp add: py_str_def digits_val_str_nat)
qed

lemma py_split_ne: "py_split sep s \<noteq> []"
  by (induction s) (auto split: list.splits)

lemma py_split_none: "sep \<notin> set s \<Longrightarrow> py_split sep s = [s]"
  by (induction s) auto

lemma py_split_append: "sep \<notin> set a \<Longrightarrow> py_split sep (a @ sep # b) = a # py_split sep b"
  by (induction a) auto

lemma py_split_ws_none: "s \<noteq> [] \<Longrightarrow> \<forall>c\<in>set s. \<not> is_space c \<Longrightarrow> py_split_ws s = [s]"
proof (induction s)
  case Nil
  then show ?case by simp
next
  case (Cons c s)
  then show ?case by (cases s) auto
qed

lemma py_split_ws_append:
  "a \<noteq> [] \<Longrightarrow> \<forall>c\<in>set a. \<not> is_space c \<Longrightarrow> is_space sp \<Longrightarrow>
   py_split_ws (a @ sp # b) = a # py_split_ws b"
proof (induction a)
  case Nil
  then show ?case by simp
next
  case (Cons c a)
  then show ?case by (cases a) auto
qed

lemma xy_token_chars:
  "xy_token x y \<noteq> [] \<and> (\<forall>c\<in>set (xy_token x y). \<not> is_space c \<and> c \<noteq> CHR '' '')"
  using py_str_chars [of x] py_str_chars [of y]
  by (auto simp: xy_token_def is_space_def)

lemma get_coord_xy_token: "get_coord (xy_token x y) = [py_str x, py_str y]"
proof -
  have a: "CHR '','' \<notin> set (py_str x)" and b: "CHR '','' \<notin> set (py_str y)"
    using py_str_chars by blast+
  show ?thesis
    by (simp add: get_coord_def xy_token_def py_split_append [OF a] py_split_none [OF b])
qed

lemma get_poly_coord_tokens:
  "get_poly_coord (map (\<lambda>p. xy_token (fst p) (snd p)) ps) = Inr ps"
proof (induction ps)
  case Nil
  show ?case by (simp add: get_poly_coord_def)
next
  case (Cons p ps)
  have "py_split (CHR '','') (xy_token (fst p) (snd p)) = [py_str (fst p), py_str (snd p)]"
    using get_coord_xy_token by (simp add: get_coord_def)
  with Cons show ?case
    by (simp add: get_poly_coord_def py_item_def py_int_py_str)
qed

subsection \<open>Tokens of a line\<close>

lemma space_is_space: "is_space (CHR '' '')"
  by (simp add: is_space_def Let_def)

lemma split_two_tokens:
  "py_split_ws (xy_token a b @ CHR '' '' # xy_token c d) = [xy_token a b, xy_token c d]"
  using xy_token_chars [of a b] xy_token_chars [of c d]
  by (simp add: py_split_ws_append space_is_space py_split_ws_none)

lemma split_four_tokens:
  "py_split_ws (xy_token a b @ CHR '' '' # xy_token c d @ CHR '' '' # xy_token e f
        @ CHR '' '' # xy_token g h)
     = [xy_token a b, xy_token c d, xy_token e f, xy_token g h]"
  using xy_token_chars [of a b] xy_token_chars [of c d] xy_token_chars [of e f]
    xy_token_chars [of g h]
  by (simp add: py_split_ws_append space_is_space py_split_ws_none)

lemma get_poly_coord_two:
  "get_poly_coord [xy_token a b, xy_token c d] = Inr [(a, b), (c, d)]"
  using get_poly_coord_tokens [of "[(a, b), (c, d)]"] by simp

lemma get_poly_coord_four:
  "get_poly_coord [xy_token a b, xy_token c d, xy_token e f, xy_token g h]
     = Inr [(a, b), (c, d), (e, f), (g, h)]"
  using get_poly_coord_tokens [of "[(a, b), (c, d), (e, f), (g, h)]"] by simp

lemma line_simplification_Some:
  assumes "line_simplification sub_box line_num = Inr (Some (k, l))"
  shows "\<exists>ms me rep.
           py_min_by (\<lambda>x. bl_start_x (snd x)) sub_box = Inr ms \<and>
           py_max_by (\<lambda>x. bl_end_x (snd x)) sub_box = Inr me \<and>
           py_max_by (\<lambda>x. bl_length (snd x)) sub_box = Inr rep \<and>
           k = ''l'' @ py_str (int line_num) \<and>
           bl_points l = xy_token (left_border (snd ms)) (bl_start_y (snd rep)) @ '' ''
                         @ xy_token (right_border (snd me)) (bl_start_y (snd rep)) \<and>
           poly_coord l = xy_token (left_border (snd ms)) (bl_start_y (snd rep) + 25) @ '' ''
                          @ xy_token (right_border (snd me)) (bl_start_y (snd rep) + 25) @ '' ''
                          @ xy_token (right_border (snd me)) (bl_start_y (snd rep) - 25) @ '' ''
                          @ xy_token (left_border (snd ms)) (bl_start_y (snd rep) - 25)"
  using assms
  by (auto simp: line_simplification_def bind_err_Inr_iff Let_def split: if_splits)

lemma line_simplification_p0_Some:
  assumes "line_simplification_p0 sub_box line_num = Inr (Some (k, l))"
  shows "\<exists>ms me rep.
           py_min_by (\<lambda>x. bl_start_x (snd x)) sub_box = Inr ms \<and>
           py_max_by (\<lambda>x. bl_end_x (snd x)) sub_box = Inr me \<and>
           py_max_by (\<lambda>x. bl_length (snd x)) sub_box = Inr rep \<and>
           k = ''l'' @ py_str (int line_num) \<and>
           bl_points l = xy_token (bl_start_x (snd ms)) (bl_start_y (snd rep)) @ '' ''
                         @ xy_token (bl_end_x (snd me)) (bl_start_y (snd rep)) \<and>
           poly_coord l =
             xy_token (bl_start_x (snd ms)) (bl_start_y (snd rep) + avg_height (snd rep) div 2) @ '' ''
             @ xy_token (bl_end_x (snd me)) (bl_start_y (snd rep) + avg_height (snd rep) div 2) @ '' ''
             @ xy_token (bl_end_x (snd me))
                 (py_trunc (real_of_int (bl_start_y (snd rep)) - real_of_int (avg_height (snd rep)) * 1.25))
             @ '' ''
             @ xy_token (bl_start_x (snd ms))
                 (py_trunc (real_of_int (bl_start_y (snd rep)) - real_of_int (avg_height (snd rep)) * 1.25))"
  using assms
  by (auto simp: line_simplification_p0_def bind_err_Inr_iff Let_def split: if_splits)

subsection \<open>Evaluation of the examples\<close>

lemma digit_chars:
  "char_of (48::nat) = CHR ''0''" "char_of (49::nat) = CHR ''1''" "char_of (50::nat) = CHR ''2''"
  "char_of (51::nat) = CHR ''3''" "char_of (52::nat) = CHR ''4''" "char_of (53::nat) = CHR ''5''"
  "char_of (54::nat) = CHR ''6''" "char_of (55::nat) = CHR ''7''" "char_of (56::nat) = CHR ''8''"
  "char_of (57::nat) = CHR ''9''"
  by (simp_all add: char_of_def bit_Suc_0_iff bit_0)

lemmas str_eval = xy_token_def py_str_def str_nat.simps digit_chars

lemmas parse_eval = get_poly_coord_def is_space_def is_int_space_def is_digit_def py_item_def
  py_int_def
  py_strip_def digits_val_def Let_def

lemma ex_cluster_line:
  "line_simplification ex_cluster 0 =
     Inr (Some (''l0'', \<lparr> bl_points = ''10,503 2000,503'',
                          poly_coord = ''10,528 2000,528 2000,478 10,478'' \<rparr>))"
  by (simp add: line_simplification_def ex_cluster_def ex_box_def Let_def
      get_baseline_length_level str_eval)

lemma ex_cluster_line_p0:
  "line_simplification_p0 ex_cluster 0 =
     Inr (Some (''l0'', \<lparr> bl_points = ''100,503 900,503'',
                          poly_coord = ''100,525 900,525 900,448 100,448'' \<rparr>))"
  by (simp add: line_simplification_p0_def ex_cluster_def ex_box_def Let_def
      get_baseline_length_level str_eval py_trunc_def)

lemma ex_dropped:
  "line_simplification ex_short_cluster 1 = Inr None"
  "line_simplification ex_zero_cluster 2 = Inr None"
  "line_simplification_p0 ex_short_cluster 1 = Inr None"
  "line_simplification_p0 ex_zero_cluster 2 = Inr None"
  by (simp_all add: line_simplification_def line_simplification_p0_def ex_short_cluster_def
      ex_zero_cluster_def ex_box_def Let_def get_baseline_length_level)

lemma ex_cluster_rep:
  "py_min_by (\<lambda>x. bl_start_x (snd x)) ex_cluster = Inr (''box0'', ex_box 100 300 500 40 480)"
  "py_max_by (\<lambda>x. bl_end_x (snd x)) ex_cluster = Inr (''box1'', ex_box 350 900 503 44 480)"
  "py_max_by (\<lambda>x. bl_length (snd x)) ex_cluster = Inr (''box1'', ex_box 350 900 503 44 480)"
  by (simp_all add: ex_cluster_def ex_box_def)

lemma ex_parse:
  "get_poly_coord (py_split_ws ''10,528 2000,528 2000,478 10,478'') =
     Inr [(10, 528), (2000, 528), (2000, 478), (10, 478)]"
  "get_poly_coord (py_split_ws ''100,525 900,525 900,448 100,448'') =
     Inr [(100, 525), (900, 525), (900, 448), (100, 448)]"
  "py_split_ws ''10,503 2000,503'' = [''10,503'', ''2000,503'']"
  "py_split_ws ''10,528 2000,528 2000,478 10,478'' = [''10,528'', ''2000,528'', ''2000,478'', ''10,478'']"
  by (simp_all add: parse_eval)


subsection \<open>The validity gate\<close>

lemma get_baseline_length_int:
  "get_baseline_length (real_of_int a) (real_of_int y) (real_of_int b) (real_of_int y)
     = real_of_int \<bar>b - a\<bar>"
proof -
  have "\<bar>real_of_int a - real_of_int b\<bar> = real_of_int \<bar>b - a\<bar>"
    by simp
  then show ?thesis
    by (simp only: get_baseline_length_level)
qed

lemma gate_length_int:
  "get_baseline_length (real_of_int a) (real_of_int y) (real_of_int b) (real_of_int y) > 400
     \<longleftrightarrow> 400 < \<bar>b - a\<bar>"
proof -
  have "(400 < real_of_int \<bar>b - a\<bar>) = (400 < \<bar>b - a\<bar>)"
    by linarith
  then show ?thesis
    by (simp only: get_baseline_length_int)
qed


text \<open>
  C1: for a non-empty cluster, \<^verbatim>\<open>line_simplification\<close> returns without an
  exception, and it returns a line exactly when the distance between the least
  \<^verbatim>\<open>bl_start_x\<close> and the greatest \<^verbatim>\<open>bl_end_x\<close> of the cluster, which is
  the length of the baseline between them at the \<open>y\<close> of the representative (the
  member with the longest baseline), is greater than 400 and the bucket of the
  representative is not 0.  Both files agree on this.
\<close>

theorem line_simplification_gate:
  assumes "sub_box \<noteq> []"
  shows "\<exists>rep. py_max_by (\<lambda>x. bl_length (snd x)) sub_box = Inr rep \<and> rep \<in> set sub_box \<and>
           (\<forall>b\<in>set sub_box. bl_length (snd b) \<le> bl_length (snd rep)) \<and>
           (let start = Min ((\<lambda>x. bl_start_x (snd x)) ` set sub_box);
                end_x = Max ((\<lambda>x. bl_end_x (snd x)) ` set sub_box);
                y = bl_start_y (snd rep);
                keep = (400 < \<bar>end_x - start\<bar> \<and> line_indicator (snd rep) \<noteq> 0)
            in get_baseline_length (real_of_int start) (real_of_int y)
                 (real_of_int end_x) (real_of_int y) = real_of_int \<bar>end_x - start\<bar> \<and>
               (\<exists>r. line_simplification sub_box line_num = Inr r \<and> (r \<noteq> None \<longleftrightarrow> keep)) \<and>
               (\<exists>r. line_simplification_p0 sub_box line_num = Inr r \<and> (r \<noteq> None \<longleftrightarrow> keep)))"
proof -
  obtain ms where ms: "py_min_by (\<lambda>x. bl_start_x (snd x)) sub_box = Inr ms"
      "bl_start_x (snd ms) = Min ((\<lambda>x. bl_start_x (snd x)) ` set sub_box)"
    using py_min_by_Inr [OF assms, of "\<lambda>x. bl_start_x (snd x)"] by blast
  obtain me where me: "py_max_by (\<lambda>x. bl_end_x (snd x)) sub_box = Inr me"
      "bl_end_x (snd me) = Max ((\<lambda>x. bl_end_x (snd x)) ` set sub_box)"
    using py_max_by_Inr [OF assms, of "\<lambda>x. bl_end_x (snd x)"] by blast
  obtain rep where rep: "py_max_by (\<lambda>x. bl_length (snd x)) sub_box = Inr rep" "rep \<in> set sub_box"
      "bl_length (snd rep) = Max ((\<lambda>x. bl_length (snd x)) ` set sub_box)"
    using py_max_by_Inr [OF assms, of "\<lambda>x. bl_length (snd x)"] by blast
  have top: "\<forall>b\<in>set sub_box. bl_length (snd b) \<le> bl_length (snd rep)"
    by (simp add: rep(3))
  have a: "\<exists>r. line_simplification sub_box line_num = Inr r \<and>
      (r \<noteq> None \<longleftrightarrow> 400 < \<bar>bl_end_x (snd me) - bl_start_x (snd ms)\<bar> \<and>
                        line_indicator (snd rep) \<noteq> 0)"
    by (simp add: line_simplification_def ms(1) me(1) rep(1) Let_def gate_length_int)
  have b: "\<exists>r. line_simplification_p0 sub_box line_num = Inr r \<and>
      (r \<noteq> None \<longleftrightarrow> 400 < \<bar>bl_end_x (snd me) - bl_start_x (snd ms)\<bar> \<and>
                        line_indicator (snd rep) \<noteq> 0)"
    by (simp add: line_simplification_p0_def ms(1) me(1) rep(1) Let_def gate_length_int)
  show ?thesis
    using rep(1,2) top a b get_baseline_length_int
    unfolding Let_def ms(2) me(2) by blast
qed

theorem line_simplification_gate_witness:
  "line_simplification ex_cluster 0 =
     Inr (Some (''l0'', \<lparr> bl_points = ''10,503 2000,503'',
                          poly_coord = ''10,528 2000,528 2000,478 10,478'' \<rparr>)) \<and>
   Min ((\<lambda>x. bl_start_x (snd x)) ` set ex_cluster) = 100 \<and>
   Max ((\<lambda>x. bl_end_x (snd x)) ` set ex_cluster) = 900 \<and>
   line_simplification ex_short_cluster 1 = Inr None \<and>
   line_simplification ex_zero_cluster 2 = Inr None \<and>
   line_simplification_p0 ex_short_cluster 1 = Inr None \<and>
   line_simplification_p0 ex_zero_cluster 2 = Inr None"
proof -
  have ne: "ex_cluster \<noteq> []"
    by (simp add: ex_cluster_def)
  have mm: "Min ((\<lambda>x. bl_start_x (snd x)) ` set ex_cluster) = 100"
    "Max ((\<lambda>x. bl_end_x (snd x)) ` set ex_cluster) = 900"
    by (simp_all add: ex_cluster_def ex_box_def)
  from line_simplification_gate [OF ne, of 0]
  have "\<exists>r. line_simplification ex_cluster 0 = Inr r"
    unfolding Let_def by blast
  then show ?thesis
    using ex_cluster_line ex_dropped mm by simp
qed


subsection \<open>The band of the polygon\<close>

text \<open>
  C5 (as amended): the polygon of an emitted line, read back with the code's own parser,
  is a rectangle.  In \<^verbatim>\<open>make_training_data.py\<close> it reaches from \<open>y - 25\<close> to
  \<open>y + 25\<close>, the same 25 above and below the \<open>y\<close> of the representative.  In the
  other file it reaches from \<^verbatim>\<open>int(y - height*1.25)\<close> to \<^verbatim>\<open>y + height//2\<close>,
  with the \<^verbatim>\<open>avg_height\<close> of the representative: the two sides differ.
\<close>

theorem line_simplification_band:
  "(line_simplification sub_box line_num = Inr (Some (k, l)) \<longrightarrow>
      (\<exists>rep xl xr. py_max_by (\<lambda>x. bl_length (snd x)) sub_box = Inr rep \<and>
         get_poly_coord (py_split_ws (poly_coord l)) =
           Inr [(xl, bl_start_y (snd rep) + 25), (xr, bl_start_y (snd rep) + 25),
                (xr, bl_start_y (snd rep) - 25), (xl, bl_start_y (snd rep) - 25)])) \<and>
   (line_simplification_p0 sub_box line_num = Inr (Some (k, l)) \<longrightarrow>
      (\<exists>rep xl xr. py_max_by (\<lambda>x. bl_length (snd x)) sub_box = Inr rep \<and>
         get_poly_coord (py_split_ws (poly_coord l)) =
           Inr [(xl, bl_start_y (snd rep) + avg_height (snd rep) div 2),
                (xr, bl_start_y (snd rep) + avg_height (snd rep) div 2),
                (xr, py_trunc (real_of_int (bl_start_y (snd rep))
                               - real_of_int (avg_height (snd rep)) * 1.25)),
                (xl, py_trunc (real_of_int (bl_start_y (snd rep))
                               - real_of_int (avg_height (snd rep)) * 1.25))]))"
proof (intro conjI impI)
  assume "line_simplification sub_box line_num = Inr (Some (k, l))"
  from line_simplification_Some [OF this] obtain ms me rep where
    "py_min_by (\<lambda>x. bl_start_x (snd x)) sub_box = Inr ms" and
    "py_max_by (\<lambda>x. bl_end_x (snd x)) sub_box = Inr me" and
    rep: "py_max_by (\<lambda>x. bl_length (snd x)) sub_box = Inr rep" and
    p: "poly_coord l = xy_token (left_border (snd ms)) (bl_start_y (snd rep) + 25) @ '' ''
                          @ xy_token (right_border (snd me)) (bl_start_y (snd rep) + 25) @ '' ''
                          @ xy_token (right_border (snd me)) (bl_start_y (snd rep) - 25) @ '' ''
                          @ xy_token (left_border (snd ms)) (bl_start_y (snd rep) - 25)"
    by (elim exE conjE) (rule that)
  have "get_poly_coord (py_split_ws (poly_coord l)) =
           Inr [(left_border (snd ms), bl_start_y (snd rep) + 25),
                (right_border (snd me), bl_start_y (snd rep) + 25),
                (right_border (snd me), bl_start_y (snd rep) - 25),
                (left_border (snd ms), bl_start_y (snd rep) - 25)]"
    by (simp add: p split_four_tokens get_poly_coord_four)
  with rep show
    "\<exists>rep xl xr. py_max_by (\<lambda>x. bl_length (snd x)) sub_box = Inr rep \<and>
         get_poly_coord (py_split_ws (poly_coord l)) =
           Inr [(xl, bl_start_y (snd rep) + 25), (xr, bl_start_y (snd rep) + 25),
                (xr, bl_start_y (snd rep) - 25), (xl, bl_start_y (snd rep) - 25)]"
    by blast
next
  assume "line_simplification_p0 sub_box line_num = Inr (Some (k, l))"
  from line_simplification_p0_Some [OF this] obtain ms me rep where
    "py_min_by (\<lambda>x. bl_start_x (snd x)) sub_box = Inr ms" and
    "py_max_by (\<lambda>x. bl_end_x (snd x)) sub_box = Inr me" and
    rep: "py_max_by (\<lambda>x. bl_length (snd x)) sub_box = Inr rep" and
    p: "poly_coord l =
             xy_token (bl_start_x (snd ms)) (bl_start_y (snd rep) + avg_height (snd rep) div 2) @ '' ''
             @ xy_token (bl_end_x (snd me)) (bl_start_y (snd rep) + avg_height (snd rep) div 2) @ '' ''
             @ xy_token (bl_end_x (snd me))
                 (py_trunc (real_of_int (bl_start_y (snd rep)) - real_of_int (avg_height (snd rep)) * 1.25))
             @ '' ''
             @ xy_token (bl_start_x (snd ms))
                 (py_trunc (real_of_int (bl_start_y (snd rep)) - real_of_int (avg_height (snd rep)) * 1.25))"
    by (elim exE conjE) (rule that)
  have "get_poly_coord (py_split_ws (poly_coord l)) =
           Inr [(bl_start_x (snd ms), bl_start_y (snd rep) + avg_height (snd rep) div 2),
                (bl_end_x (snd me), bl_start_y (snd rep) + avg_height (snd rep) div 2),
                (bl_end_x (snd me), py_trunc (real_of_int (bl_start_y (snd rep))
                               - real_of_int (avg_height (snd rep)) * 1.25)),
                (bl_start_x (snd ms), py_trunc (real_of_int (bl_start_y (snd rep))
                               - real_of_int (avg_height (snd rep)) * 1.25))]"
    by (simp add: p split_four_tokens get_poly_coord_four)
  with rep show
    "\<exists>rep xl xr. py_max_by (\<lambda>x. bl_length (snd x)) sub_box = Inr rep \<and>
         get_poly_coord (py_split_ws (poly_coord l)) =
           Inr [(xl, bl_start_y (snd rep) + avg_height (snd rep) div 2),
                (xr, bl_start_y (snd rep) + avg_height (snd rep) div 2),
                (xr, py_trunc (real_of_int (bl_start_y (snd rep))
                               - real_of_int (avg_height (snd rep)) * 1.25)),
                (xl, py_trunc (real_of_int (bl_start_y (snd rep))
                               - real_of_int (avg_height (snd rep)) * 1.25))]"
    by blast
qed

theorem line_simplification_band_witness:
  "line_simplification ex_cluster 0 =
     Inr (Some (''l0'', \<lparr> bl_points = ''10,503 2000,503'',
                          poly_coord = ''10,528 2000,528 2000,478 10,478'' \<rparr>)) \<and>
   get_poly_coord (py_split_ws ''10,528 2000,528 2000,478 10,478'') =
     Inr [(10, 503 + 25), (2000, 503 + 25), (2000, 503 - 25), (10, 503 - 25)] \<and>
   line_simplification_p0 ex_cluster 0 =
     Inr (Some (''l0'', \<lparr> bl_points = ''100,503 900,503'',
                          poly_coord = ''100,525 900,525 900,448 100,448'' \<rparr>)) \<and>
   get_poly_coord (py_split_ws ''100,525 900,525 900,448 100,448'') =
     Inr [(100, 503 + 44 div 2), (900, 503 + 44 div 2), (900, 448), (100, 448)]"
proof -
  let ?l0 = "\<lparr> bl_points = ''100,503 900,503'',
               poly_coord = ''100,525 900,525 900,448 100,448'' \<rparr>"
  from line_simplification_band [of ex_cluster 0 "''l0''" ?l0, THEN conjunct2, THEN mp,
      OF ex_cluster_line_p0]
  have p0: "\<exists>ps. get_poly_coord (py_split_ws ''100,525 900,525 900,448 100,448'') = Inr ps"
    by (elim exE conjE) simp
  let ?l = "\<lparr> bl_points = ''10,503 2000,503'',
              poly_coord = ''10,528 2000,528 2000,478 10,478'' \<rparr>"
  from line_simplification_band [of ex_cluster 0 "''l0''" ?l, THEN conjunct1, THEN mp,
      OF ex_cluster_line]
  have "\<exists>ps. get_poly_coord (py_split_ws ''10,528 2000,528 2000,478 10,478'') = Inr ps"
    by (elim exE conjE) simp
  then show ?thesis
    using p0 ex_cluster_line ex_cluster_line_p0 ex_parse(1,2) by simp
qed

text \<open>
  In the other file a cluster whose representative has \<open>y = 503\<close> and height 44 gets
  the band from 448 (which is \<open>int(503 - 55)\<close>) to 525 (which is \<open>503 + 22\<close>): 55 above
  and 22 below, so no half-band fits both sides.
\<close>

theorem line_simplification_band_counterexample:
  "line_simplification_p0 ex_cluster 0 =
     Inr (Some (''l0'', \<lparr> bl_points = ''100,503 900,503'',
                          poly_coord = ''100,525 900,525 900,448 100,448'' \<rparr>)) \<and>
   py_max_by (\<lambda>x. bl_length (snd x)) ex_cluster = Inr (''box1'', ex_box 350 900 503 44 480) \<and>
   bl_start_y (ex_box 350 900 503 44 480) = 503 \<and>
   avg_height (ex_box 350 900 503 44 480) = 44 \<and>
   get_poly_coord (py_split_ws ''100,525 900,525 900,448 100,448'') =
     Inr [(100, 525), (900, 525), (900, 448), (100, 448)] \<and>
   \<not> (\<exists>halfband::int. 448 = 503 - halfband \<and> 525 = 503 + halfband)"
proof -
  have "\<not> (\<exists>halfband::int. 448 = 503 - halfband \<and> 525 = 503 + halfband)"
    by presburger
  then show ?thesis
    using ex_cluster_line_p0 ex_cluster_rep(3) ex_parse(2) by (simp add: ex_box_def)
qed

subsection \<open>The tokens of an emitted line\<close>

lemma py_min_by_mem: "py_min_by key xs = Inr m \<Longrightarrow> m \<in> set xs"
  using py_min_by_Inr [of xs key] by (cases xs) auto

lemma py_max_by_mem: "py_max_by key xs = Inr m \<Longrightarrow> m \<in> set xs"
  using py_max_by_Inr [of xs key] by (cases xs) auto


text \<open>
  \<^verbatim>\<open>create_box\<close> stores the same two borders in every box of a document: the
  \<open>x\<close> of the points 0 and 3 of the region.
\<close>

lemma map_err_Inr_set: "map_err f xs = Inr ys \<Longrightarrow> y \<in> set ys \<Longrightarrow> \<exists>x\<in>set xs. f x = Inr y"
proof (induction xs arbitrary: ys)
  case Nil
  then show ?case by simp
next
  case (Cons a xs)
  then show ?case by (auto simp: bind_err_Inr_iff)
qed

lemma create_box_line_borders:
  "create_box_line lbs rbs tline = Inr b \<Longrightarrow>
   py_int lbs = Inr (left_border b) \<and> py_int rbs = Inr (right_border b)"
  unfolding create_box_line_def Let_def bind_err_Inr_iff by auto

lemma create_box_zip_borders:
  assumes "map_err (create_box_line lbs rbs) lines = Inr bs" and "(k, b) \<in> set (zip ks bs)"
  shows "py_int lbs = Inr (left_border b) \<and> py_int rbs = Inr (right_border b)"
proof -
  have "b \<in> set bs" using assms(2) by (rule set_zip_rightD)
  from map_err_Inr_set [OF assms(1) this] show ?thesis
    using create_box_line_borders by blast
qed

lemma create_box_same_borders:
  assumes "create_box regions = Inr boxes" and "a \<in> set boxes" and "b \<in> set boxes"
  shows "left_border (snd a) = left_border (snd b) \<and> right_border (snd a) = right_border (snd b)"
proof (cases "get_main_region regions")
  case (Inl e)
  with assms show ?thesis by (simp add: create_box_def)
next
  case (Inr m)
  obtain ka ba kb bb where ab: "a = (ka, ba)" "b = (kb, bb)"
    by (cases a, cases b) auto
  from assms show ?thesis
    unfolding create_box_def Inr ab
    by (auto simp: Let_def bind_err_Inr_iff dest!: create_box_zip_borders [rotated])
qed

text \<open>
  C8: a line that \<^verbatim>\<open>line_simplification\<close> emits has exactly two tokens in
  \<^verbatim>\<open>bl_points\<close>, the left end \<open>(left, y)\<close> and then the right end
  \<open>(right, y)\<close>, and exactly four tokens in \<^verbatim>\<open>poly_coord\<close>: bottom left,
  bottom right, top right, top left, where the bottom is \<open>y + 25\<close> and the top is
  \<open>y - 25\<close> (the \<open>y\<close> axis of the page points down).  Every token reads back, with
  the code's own parser, as the pair of integers it was written from.  The ends are the
  borders that the boxes carry; for boxes whose left border is not right of their right
  border, as for a region whose point 0 is not right of its point 3, the left end is not
  right of the right end.
\<close>

theorem line_simplification_tokens:
  assumes "line_simplification sub_box line_num = Inr (Some (k, l))"
    and "\<forall>a\<in>set sub_box. \<forall>b\<in>set sub_box. left_border (snd a) \<le> right_border (snd b)"
  shows "\<exists>ms me rep.
           py_min_by (\<lambda>x. bl_start_x (snd x)) sub_box = Inr ms \<and>
           py_max_by (\<lambda>x. bl_end_x (snd x)) sub_box = Inr me \<and>
           py_max_by (\<lambda>x. bl_length (snd x)) sub_box = Inr rep \<and>
           (let left = left_border (snd ms); right = right_border (snd me);
                y = bl_start_y (snd rep); bottom = y + 25; top = y - 25
            in left \<le> right \<and> top < bottom \<and>
               py_split_ws (bl_points l) = [xy_token left y, xy_token right y] \<and>
               get_poly_coord (py_split_ws (bl_points l)) = Inr [(left, y), (right, y)] \<and>
               py_split_ws (poly_coord l) =
                 [xy_token left bottom, xy_token right bottom,
                  xy_token right top, xy_token left top] \<and>
               get_poly_coord (py_split_ws (poly_coord l)) =
                 Inr [(left, bottom), (right, bottom), (right, top), (left, top)])"
proof -
  from line_simplification_Some [OF assms(1)] obtain ms me rep where
    ms: "py_min_by (\<lambda>x. bl_start_x (snd x)) sub_box = Inr ms" and
    me: "py_max_by (\<lambda>x. bl_end_x (snd x)) sub_box = Inr me" and
    rep: "py_max_by (\<lambda>x. bl_length (snd x)) sub_box = Inr rep" and
    k: "k = ''l'' @ py_str (int line_num)" and
    b: "bl_points l = xy_token (left_border (snd ms)) (bl_start_y (snd rep)) @ '' ''
                         @ xy_token (right_border (snd me)) (bl_start_y (snd rep))" and
    p: "poly_coord l = xy_token (left_border (snd ms)) (bl_start_y (snd rep) + 25) @ '' ''
                          @ xy_token (right_border (snd me)) (bl_start_y (snd rep) + 25) @ '' ''
                          @ xy_token (right_border (snd me)) (bl_start_y (snd rep) - 25) @ '' ''
                          @ xy_token (left_border (snd ms)) (bl_start_y (snd rep) - 25)"
    by (elim exE conjE) (rule that)
  have "left_border (snd ms) \<le> right_border (snd me)"
    using assms(2) py_min_by_mem [OF ms] py_max_by_mem [OF me] by blast
  moreover have "py_split_ws (bl_points l) =
          [xy_token (left_border (snd ms)) (bl_start_y (snd rep)),
           xy_token (right_border (snd me)) (bl_start_y (snd rep))]"
    by (simp add: b split_two_tokens)
  moreover have "py_split_ws (poly_coord l) =
          [xy_token (left_border (snd ms)) (bl_start_y (snd rep) + 25),
           xy_token (right_border (snd me)) (bl_start_y (snd rep) + 25),
           xy_token (right_border (snd me)) (bl_start_y (snd rep) - 25),
           xy_token (left_border (snd ms)) (bl_start_y (snd rep) - 25)]"
    by (simp add: p split_four_tokens)
  ultimately show ?thesis
    using ms me rep by (simp add: Let_def get_poly_coord_two get_poly_coord_four)
qed

theorem line_simplification_tokens_witness:
  "line_simplification ex_cluster 0 =
     Inr (Some (''l0'', \<lparr> bl_points = ''10,503 2000,503'',
                          poly_coord = ''10,528 2000,528 2000,478 10,478'' \<rparr>)) \<and>
   map (\<lambda>kv. (left_border (snd kv), right_border (snd kv))) ex_cluster
     = [(10, 2000), (10, 2000)] \<and>
   py_split_ws ''10,503 2000,503'' = [''10,503'', ''2000,503''] \<and>
   py_split_ws ''10,528 2000,528 2000,478 10,478'' =
     [''10,528'', ''2000,528'', ''2000,478'', ''10,478''] \<and>
   get_poly_coord [''10,503'', ''2000,503''] = Inr [(10, 503), (2000, 503)]"
proof -
  let ?l = "\<lparr> bl_points = ''10,503 2000,503'',
              poly_coord = ''10,528 2000,528 2000,478 10,478'' \<rparr>"
  have bo: "\<forall>a\<in>set ex_cluster. \<forall>b\<in>set ex_cluster. left_border (snd a) \<le> right_border (snd b)"
    by (simp add: ex_cluster_def ex_box_def)
  have pc: "get_poly_coord [''10,503'', ''2000,503''] = Inr [(10, 503), (2000, 503)]"
    by (simp add: parse_eval)
  from line_simplification_tokens [OF ex_cluster_line bo]
  have "\<exists>ts. py_split_ws (bl_points ?l) = ts \<and> length ts = 2"
    unfolding Let_def by (elim exE conjE) simp
  moreover have "map (\<lambda>kv. (left_border (snd kv), right_border (snd kv))) ex_cluster
                   = [(10, 2000), (10, 2000)]"
    by (simp add: ex_cluster_def ex_box_def)
  ultimately show ?thesis
    using ex_cluster_line ex_parse(3,4) pc by simp
qed


subsection \<open>Overlap removal\<close>

lemma rm_overlap_loop_marked:
  assumes "\<forall>x\<in>set en. fst x \<noteq> 0 \<and> map_of sb (fst (snd x)) = Some (snd (snd x)) \<and>
             ref_y (snd (snd x)) = Inr (line_y (snd (snd x)))"
    and "map_of sb pk = Some pb" and "ref_y pb = Inr (line_y pb)"
  shows "rm_overlap_loop sb en (Some pk) rm = Inr (rm @ marked pk (line_y pb) (map snd en))"
  using assms
proof (induction en arbitrary: pk pb rm)
  case Nil
  show ?case by simp
next
  case (Cons x en)
  obtain i k b where x: "x = (i, k, b)" by (cases x) auto
  from Cons.prems(1) have i: "i \<noteq> 0" and kb: "map_of sb k = Some b"
    and yb: "ref_y b = Inr (line_y b)"
    and rest: "\<forall>x\<in>set en. fst x \<noteq> 0 \<and> map_of sb (fst (snd x)) = Some (snd (snd x)) \<and>
             ref_y (snd (snd x)) = Inr (line_y (snd (snd x)))"
    by (simp_all add: x)
  have py: "bind_err (get_start_y (poly_coord pb)) py_int = Inr (line_y pb)"
    using Cons.prems(3) by (simp add: ref_y_def)
  have cy: "bind_err (get_start_y (poly_coord b)) py_int = Inr (line_y b)"
    using yb by (simp add: ref_y_def)
  have "rm_overlap_loop sb (x # en) (Some pk) rm =
          rm_overlap_loop sb en (Some k)
            (if line_y b - line_y pb < 40 then rm @ [pk] else rm)"
    using i by (simp add: x py_lookup_def Cons.prems(2) py cy)
  also have "\<dots> = Inr ((if line_y b - line_y pb < 40 then rm @ [pk] else rm)
                       @ marked k (line_y b) (map snd en))"
    by (rule Cons.IH [OF rest kb yb])
  finally show ?case by (simp add: x)
qed

lemma marked_subset: "set (marked pk py r) \<subseteq> set (butlast (pk # map fst r))"
proof (induction r arbitrary: pk py)
  case Nil
  show ?case by simp
next
  case (Cons x r)
  obtain k b where x: "x = (k, b)" by (cases x) auto
  from Cons.IH [of k "line_y b"] show ?case
    by (auto simp: x)
qed

lemma marked_distinct: "distinct (pk # map fst r) \<Longrightarrow> distinct (marked pk py r)"
proof (induction r arbitrary: pk py)
  case Nil
  show ?case by simp
next
  case (Cons x r)
  obtain k b where x: "x = (k, b)" by (cases x) auto
  have sub: "set (marked k (line_y b) r) \<subseteq> set (k # map fst r)"
    using marked_subset [of k "line_y b" r] in_set_butlastD by fastforce
  from Cons.prems have "distinct (k # map fst r)" and "pk \<notin> set (k # map fst r)"
    by (auto simp: x)
  with Cons.IH [of k "line_y b"] sub show ?case
    by (auto simp: x)
qed

lemma rm_overlap_del_filter:
  "distinct rm \<Longrightarrow> set rm \<subseteq> fst ` set sb \<Longrightarrow>
   rm_overlap_del sb rm = Inr (filter (\<lambda>kv. fst kv \<notin> set rm) sb)"
proof (induction rm arbitrary: sb)
  case Nil
  show ?case by simp
next
  case (Cons k rm)
  from Cons.prems have k: "k \<in> fst ` set sb" and d: "distinct rm" and nk: "k \<notin> set rm"
    and sub: "set rm \<subseteq> fst ` set sb"
    by auto
  have sub': "set rm \<subseteq> fst ` set (filter (\<lambda>kv. fst kv \<noteq> k) sb)"
    using sub nk by force
  have "rm_overlap_del sb (k # rm) = rm_overlap_del (filter (\<lambda>kv. fst kv \<noteq> k) sb) rm"
    using k by (simp add: py_del_def)
  also have "\<dots> = Inr (filter (\<lambda>kv. fst kv \<notin> set rm) (filter (\<lambda>kv. fst kv \<noteq> k) sb))"
    by (rule Cons.IH [OF d sub'])
  also have "filter (\<lambda>kv. fst kv \<notin> set rm) (filter (\<lambda>kv. fst kv \<noteq> k) sb)
             = filter (\<lambda>kv. fst kv \<notin> set (k # rm)) sb"
    by (auto intro: filter_cong)
  finally show ?case .
qed

lemma filter_marked_pairs:
  "distinct (map fst (a # r)) \<Longrightarrow>
   filter (\<lambda>kv. fst kv \<notin> set (marked (fst a) (line_y (snd a)) r)) (a # r) = rm_overlap_pairs (a # r)"
proof (induction r arbitrary: a)
  case Nil
  show ?case by simp
next
  case (Cons b r)
  let ?M = "marked (fst b) (line_y (snd b)) r"
  have sub: "set ?M \<subseteq> set (map fst (b # r))"
    using marked_subset [of "fst b" "line_y (snd b)" r] in_set_butlastD by fastforce
  from Cons.prems have d: "distinct (map fst (b # r))" and na: "fst a \<notin> set (map fst (b # r))"
    by auto
  have naM: "fst a \<notin> set ?M" using sub na by blast
  have same: "filter (\<lambda>kv. fst kv \<notin> insert (fst a) (set ?M)) (b # r)
              = filter (\<lambda>kv. fst kv \<notin> set ?M) (b # r)"
  proof (intro filter_cong refl)
    fix kv assume "kv \<in> set (b # r)"
    then have "fst kv \<in> set (map fst (b # r))" by (simp add: image_iff) blast
    with na have "fst kv \<noteq> fst a" by metis
    then show "(fst kv \<notin> insert (fst a) (set ?M)) = (fst kv \<notin> set ?M)" by simp
  qed
  have m: "marked (fst a) (line_y (snd a)) (b # r) =
        (if line_y (snd b) - line_y (snd a) < 40 then [fst a] else []) @ ?M"
    by (cases b) simp
  show ?case
  proof (cases "line_y (snd b) - line_y (snd a) < 40")
    case True
    have "filter (\<lambda>kv. fst kv \<notin> set (marked (fst a) (line_y (snd a)) (b # r))) (a # b # r)
          = filter (\<lambda>kv. fst kv \<notin> insert (fst a) (set ?M)) (b # r)"
      using True by (simp add: m)
    also have "\<dots> = rm_overlap_pairs (b # r)"
      using same Cons.IH [OF d] by simp
    finally show ?thesis using True by simp
  next
    case False
    have "filter (\<lambda>kv. fst kv \<notin> set (marked (fst a) (line_y (snd a)) (b # r))) (a # b # r)
          = a # filter (\<lambda>kv. fst kv \<notin> set ?M) (b # r)"
      using False naM by (simp add: m)
    also have "\<dots> = a # rm_overlap_pairs (b # r)"
      using Cons.IH [OF d] by simp
    finally show ?thesis using False by simp
  qed
qed

lemma rm_overlap_refines:
  assumes d: "distinct (map fst sim_box)"
    and r: "\<forall>kv\<in>set sim_box. \<exists>v. ref_y (snd kv) = Inr v"
  shows "rm_overlap sim_box = Inr (rm_overlap_pairs sim_box)"
proof (cases sim_box)
  case Nil
  then show ?thesis by (simp add: rm_overlap_def)
next
  case (Cons a rest)
  obtain k0 b0 where a: "a = (k0, b0)" by (cases a) auto
  let ?en = "zip [Suc 0..<Suc (length rest)] rest"
  have ry: "ref_y (snd kv) = Inr (line_y (snd kv))" if "kv \<in> set sim_box" for kv
    using r that by (auto simp: line_y_def)
  have mp: "map_of sim_box (fst kv) = Some (snd kv)" if "kv \<in> set sim_box" for kv
    using d that by (cases kv) simp
  have en: "\<forall>x\<in>set ?en. fst x \<noteq> 0 \<and> map_of sim_box (fst (snd x)) = Some (snd (snd x)) \<and>
             ref_y (snd (snd x)) = Inr (line_y (snd (snd x)))"
  proof
    fix x assume x: "x \<in> set ?en"
    obtain i kb where xe: "x = (i, kb)" by (cases x) auto
    have "i \<in> set [Suc 0..<Suc (length rest)]"
      using x unfolding xe by (rule set_zip_leftD)
    then have "fst x \<noteq> 0" by (simp add: xe del: upt_Suc)
    moreover have "kb \<in> set rest"
      using x unfolding xe by (rule set_zip_rightD)
    then have "snd x \<in> set rest" by (simp add: xe)
    ultimately show "fst x \<noteq> 0 \<and> map_of sim_box (fst (snd x)) = Some (snd (snd x)) \<and>
             ref_y (snd (snd x)) = Inr (line_y (snd (snd x)))"
      using mp [of "snd x"] ry [of "snd x"] by (auto simp: Cons)
  qed
  have snd_en: "map snd ?en = rest"
    by (rule map_snd_zip) (simp del: upt_Suc)
  have zip: "zip [0..<length sim_box] sim_box = (0, k0, b0) # ?en"
    by (simp add: Cons a upt_conv_Cons del: upt_Suc)
  have loop: "rm_overlap_loop sim_box (zip [0..<length sim_box] sim_box) None []
        = Inr (marked k0 (line_y b0) rest)"
  proof -
    have mp0: "map_of sim_box k0 = Some b0"
      using mp [of a] by (simp add: Cons a)
    have ry0: "ref_y b0 = Inr (line_y b0)"
      using ry [of a] by (simp add: Cons a)
    have "rm_overlap_loop sim_box ((0, k0, b0) # ?en) None []
          = rm_overlap_loop sim_box ?en (Some k0) []"
      by (simp del: upt_Suc)
    also have "\<dots> = Inr ([] @ marked k0 (line_y b0) (map snd ?en))"
      by (rule rm_overlap_loop_marked [OF en mp0 ry0])
    finally show ?thesis
      by (simp only: zip snd_en append_Nil)
  qed
  have dm: "distinct (marked k0 (line_y b0) rest)"
    using d by (intro marked_distinct) (simp add: Cons a)
  have sub: "set (marked k0 (line_y b0) rest) \<subseteq> fst ` set sim_box"
    using marked_subset [of k0 "line_y b0" rest] in_set_butlastD by (fastforce simp: Cons a)
  have "rm_overlap sim_box = Inr (filter (\<lambda>kv. fst kv \<notin> set (marked k0 (line_y b0) rest)) sim_box)"
    by (simp add: rm_overlap_def loop rm_overlap_del_filter [OF dm sub])
  also have "filter (\<lambda>kv. fst kv \<notin> set (marked k0 (line_y b0) rest)) sim_box = rm_overlap_pairs sim_box"
    using filter_marked_pairs [of a rest] d by (simp add: Cons a)
  finally show ?thesis .
qed

lemma py_split_space_token:
  "CHR '' '' \<notin> set (xy_token a b)"
  using xy_token_chars [of a b] by blast

text \<open>
  Every line that \<^verbatim>\<open>line_simplification\<close> emits has a polygon that
  \<^verbatim>\<open>rm_overlap\<close> reads without an exception.
\<close>

lemma ref_y_four_tokens:
  assumes "poly_coord l = xy_token a1 b1 @ '' '' @ xy_token a2 b2 @ '' '' @ xy_token a3 b3
                          @ '' '' @ xy_token a4 b4"
  shows "ref_y l = Inr b4"
proof -
  have "py_split (CHR '' '') (poly_coord l) =
          [xy_token a1 b1, xy_token a2 b2, xy_token a3 b3, xy_token a4 b4]"
    by (simp add: assms py_split_append py_split_none py_split_space_token)
  then have "get_start_y (poly_coord l) = Inr (py_str b4)"
    using get_coord_xy_token [of a4 b4]
    by (simp add: get_start_y_def py_item_def get_coord_def)
  then show ?thesis
    by (simp add: ref_y_def py_int_py_str)
qed

lemma line_simplification_ref_y:
  "line_simplification sub_box line_num = Inr (Some (k, l)) \<Longrightarrow> \<exists>v. ref_y l = Inr v"
  "line_simplification_p0 sub_box line_num = Inr (Some (k, l)) \<Longrightarrow> \<exists>v. ref_y l = Inr v"
proof -
  assume "line_simplification sub_box line_num = Inr (Some (k, l))"
  from line_simplification_Some [OF this] show "\<exists>v. ref_y l = Inr v"
    using ref_y_four_tokens [of l] by blast
next
  assume "line_simplification_p0 sub_box line_num = Inr (Some (k, l))"
  from line_simplification_p0_Some [OF this] show "\<exists>v. ref_y l = Inr v"
    using ref_y_four_tokens [of l] by blast
qed


lemma ref_y_ex_line: "ref_y (ex_line y) = Inr (y - 25)"
proof -
  have "py_split (CHR '' '') (poly_coord (ex_line y)) =
          [xy_token 10 (y + 25), xy_token 2000 (y + 25), xy_token 2000 (y - 25),
           xy_token 10 (y - 25)]"
    by (simp add: ex_line_def py_split_append py_split_none py_split_space_token)
  then have "get_start_y (poly_coord (ex_line y)) = Inr (py_str (y - 25))"
    using get_coord_xy_token [of 10 "y - 25"]
    by (simp add: get_start_y_def py_item_def get_coord_def)
  then show ?thesis
    by (simp add: ref_y_def py_int_py_str)
qed

lemma line_y_ex_line: "line_y (ex_line y) = y - 25"
  by (simp add: line_y_def ref_y_ex_line)

lemma ex_lines_ok:
  "distinct (map fst ex_lines_rising)" "\<forall>kv\<in>set ex_lines_rising. \<exists>v. ref_y (snd kv) = Inr v"
  "distinct (map fst ex_lines_zigzag)" "\<forall>kv\<in>set ex_lines_zigzag. \<exists>v. ref_y (snd kv) = Inr v"
  by (simp_all add: ex_lines_rising_def ex_lines_zigzag_def ref_y_ex_line)

lemma ex_lines_out:
  "rm_overlap ex_lines_rising = Inr [(''l1'', ex_line 530), (''l2'', ex_line 625)]"
  "rm_overlap ex_lines_zigzag = Inr [(''l0'', ex_line 500), (''l2'', ex_line 510)]"
  by (simp_all add: rm_overlap_refines ex_lines_ok)
     (simp_all add: ex_lines_rising_def ex_lines_zigzag_def line_y_ex_line)




lemma rm_overlap_pairs_last: "xs \<noteq> [] \<Longrightarrow> rm_overlap_pairs xs \<noteq> [] \<and> last (rm_overlap_pairs xs) = last xs"
  by (induction xs rule: rm_overlap_pairs.induct) auto















text \<open>
  C9: for a non-empty dictionary of lines (distinct keys, polygons that read)
  \<^verbatim>\<open>rm_overlap\<close> returns a non-empty dictionary whose last line is the last line
  of the input: only the earlier line of a pair is ever removed.
\<close>

theorem rm_overlap_keeps_last:
  assumes "sim_box \<noteq> []"
    and "distinct (map fst sim_box)"
    and "\<forall>kv\<in>set sim_box. \<exists>v. ref_y (snd kv) = Inr v"
  shows "\<exists>out. rm_overlap sim_box = Inr out \<and> out \<noteq> [] \<and> last out = last sim_box"
  using rm_overlap_refines [OF assms(2,3)] rm_overlap_pairs_last [OF assms(1)] by simp

theorem rm_overlap_keeps_last_witness:
  "rm_overlap ex_lines_zigzag = Inr [(''l0'', ex_line 500), (''l2'', ex_line 510)] \<and>
   last [(''l0'', ex_line 500), (''l2'', ex_line 510)] = last ex_lines_zigzag"
proof -
  have ne: "ex_lines_zigzag \<noteq> []"
    by (simp add: ex_lines_zigzag_def)
  from rm_overlap_keeps_last [OF ne ex_lines_ok(3,4)] ex_lines_out(2)
  show ?thesis by simp
qed

subsection \<open>Malformed coordinate tokens\<close>

lemma py_index_less: "py_index xs v = Inr i \<Longrightarrow> i < length xs"
proof (induction xs arbitrary: i)
  case Nil
  then show ?case by simp
next
  case (Cons x xs)
  then show ?case by (auto simp: bind_err_Inr_iff split: if_splits)
qed

lemma get_main_region_less: "get_main_region regions = Inr m \<Longrightarrow> m < length regions"
  using py_index_less [of "map (\<lambda>region. length (region_lines region)) regions"]
  by (auto simp: get_main_region_def Let_def split: if_splits)

lemma map_err_Inr_all: "map_err f xs = Inr ys \<Longrightarrow> x \<in> set xs \<Longrightarrow> \<exists>y. f x = Inr y"
proof (induction xs arbitrary: ys)
  case Nil
  then show ?case by simp
next
  case (Cons a xs)
  then show ?case by (auto simp: bind_err_Inr_iff)
qed

lemma py_item_1_length: "py_item xs 1 = Inr v \<Longrightarrow> 2 \<le> length xs"
  by (auto simp: py_item_def Let_def split: if_splits)

lemma get_poly_coord_fields:
  assumes "get_poly_coord toks = Inr ps" and "t \<in> set toks"
  shows "2 \<le> length (get_coord t)"
proof -
  from map_err_Inr_all [OF assms(1) [unfolded get_poly_coord_def] assms(2)]
  obtain p where "py_item (py_split (CHR '','') t) 1 = Inr p"
    by (auto simp: Let_def bind_err_Inr_iff)
  then show ?thesis
    by (simp add: get_coord_def py_item_1_length)
qed

lemma get_y_avg_fields:
  assumes "get_y_avg toks = Inr y" and "t \<in> set toks"
  shows "2 \<le> length (get_coord t)"
proof -
  from assms(1) obtain ys where
    "map_err (\<lambda>coord. bind_err (py_item (get_coord coord) 1) py_int) toks = Inr ys"
    by (auto simp: get_y_avg_def bind_err_Inr_iff)
  from map_err_Inr_all [OF this assms(2)]
  obtain p where "py_item (get_coord t) 1 = Inr p"
    by (auto simp: bind_err_Inr_iff)
  then show ?thesis
    by (rule py_item_1_length)
qed

lemma create_box_line_fields:
  assumes "create_box_line lb rb tline = Inr b"
    and "t \<in> set (py_split_ws (line_coords tline)) \<union> set (py_split_ws (line_baseline tline))"
  shows "2 \<le> length (get_coord t)"
proof -
  from assms(1) obtain ps y where
    p: "get_poly_coord (py_split_ws (line_coords tline)) = Inr ps" and
    y: "get_y_avg (py_split_ws (line_baseline tline)) = Inr y"
    unfolding create_box_line_def Let_def bind_err_Inr_iff by blast
  from assms(2) show ?thesis
    using get_poly_coord_fields [OF p] get_y_avg_fields [OF y] by blast
qed

lemma create_box_lines:
  assumes "create_box regions = Inr boxes" and "get_main_region regions = Inr m"
    and "tline \<in> set (region_lines (regions ! m))"
  shows "\<exists>lb rb b. create_box_line lb rb tline = Inr b"
proof -
  have m: "py_item regions (int m) = Inr (regions ! m)"
    using get_main_region_less [OF assms(2)] by (simp add: py_item_def)
  from assms(1) obtain lb rb bs where
    "map_err (create_box_line lb rb) (region_lines (regions ! m)) = Inr bs"
    unfolding create_box_def assms(2) by (auto simp: m Let_def bind_err_Inr_iff)
  from map_err_Inr_all [OF this assms(3)] show ?thesis by blast
qed

lemma py_split_fields3:
  "py_split (CHR '','') (xy_token x y @ '','' @ extra)
     = py_str x # py_str y # py_split (CHR '','') extra"
proof -
  have a: "CHR '','' \<notin> set (py_str x)" and b: "CHR '','' \<notin> set (py_str y)"
    using py_str_chars by blast+
  show ?thesis
    by (simp add: xy_token_def py_split_append [OF a] py_split_append [OF b])
qed

lemma extra_fields_ignored:
  "get_poly_coord [xy_token x y @ '','' @ extra] = Inr [(x, y)] \<and>
   get_y_avg [xy_token x y @ '','' @ extra] = Inr (real_of_int y)"
  using py_split_fields3 [of x y extra]
  by (simp add: get_poly_coord_def get_y_avg_def get_coord_def py_item_def py_int_py_str
      py_mean_def)

lemma ex_create_box_short:
  "create_box [ex_region [ex_good_line, ex_short_field_line]] = Inl IndexError"
  by (simp add: create_box_def get_main_region_def ex_region_def ex_good_line_def
      ex_short_field_line_def create_box_line_def get_avg_height_def get_y_avg_def
      get_line_indicator_def line_indicator_of_def py_mean_def py_mod_def py_floordiv_def
      py_trunc_def get_coord_def get_baseline_length_level parse_eval str_eval)

lemma ex_create_box_good:
  "create_box [ex_region [ex_good_line]] =
     Inr [(''box0'', \<lparr> bl_start_x = 100, bl_start_y = 501, bl_end_x = 900, bl_end_y = 501,
                      bl_length = 800, avg_height = 40, line_indicator = 480,
                      left_border = 10, right_border = 2000 \<rparr>)]"
  by (simp add: create_box_def get_main_region_def ex_region_def ex_good_line_def
      create_box_line_def get_avg_height_def get_y_avg_def
      get_line_indicator_def line_indicator_of_def py_mean_def py_mod_def py_floordiv_def
      py_trunc_def get_coord_def get_baseline_length_level parse_eval str_eval)

lemma ex_create_box_long:
  "create_box [ex_region [ex_good_line, ex_long_field_line]] =
     Inr [(''box0'', \<lparr> bl_start_x = 100, bl_start_y = 501, bl_end_x = 900, bl_end_y = 501,
                      bl_length = 800, avg_height = 40, line_indicator = 480,
                      left_border = 10, right_border = 2000 \<rparr>),
          (''box1'', \<lparr> bl_start_x = 100, bl_start_y = 600, bl_end_x = 900, bl_end_y = 600,
                      bl_length = 800, avg_height = 40, line_indicator = 600,
                      left_border = 10, right_border = 2000 \<rparr>)]"
  by (simp add: create_box_def get_main_region_def ex_region_def ex_good_line_def
      ex_long_field_line_def create_box_line_def get_avg_height_def get_y_avg_def
      get_line_indicator_def line_indicator_of_def py_mean_def py_mod_def py_floordiv_def
      py_trunc_def get_coord_def get_baseline_length_level parse_eval str_eval)

text \<open>
  C4 (as amended): no exception is caught inside the loop of \<^verbatim>\<open>create_box\<close>.  When
  a polygon or baseline token of a line of the main region has fewer than two
  comma-separated fields, \<^verbatim>\<open>create_box\<close> ends with an exception and returns no
  detection at all, also none of the well-formed lines.  A token with more than two fields
  raises nothing: the fields after the second are not read.
\<close>

theorem create_box_short_token_aborts:
  "(get_main_region regions = Inr m \<and> tline \<in> set (region_lines (regions ! m)) \<and>
    t \<in> set (py_split_ws (line_coords tline)) \<union> set (py_split_ws (line_baseline tline)) \<and>
    length (get_coord t) < 2
      \<longrightarrow> (\<exists>e. create_box regions = Inl e)) \<and>
   get_poly_coord [xy_token x y @ '','' @ extra] = Inr [(x, y)] \<and>
   get_y_avg [xy_token x y @ '','' @ extra] = Inr (real_of_int y)"
proof -
  have "\<exists>e. create_box regions = Inl e"
    if m: "get_main_region regions = Inr m"
      and l: "tline \<in> set (region_lines (regions ! m))"
      and t: "t \<in> set (py_split_ws (line_coords tline)) \<union> set (py_split_ws (line_baseline tline))"
      and s: "length (get_coord t) < 2"
  proof (cases "create_box regions")
    case (Inl e)
    then show ?thesis by blast
  next
    case (Inr boxes)
    from create_box_lines [OF Inr m l] obtain lb rb b where
      "create_box_line lb rb tline = Inr b" by blast
    from create_box_line_fields [OF this t] s show ?thesis by simp
  qed
  then show ?thesis
    using extra_fields_ignored [of x y extra] by blast
qed

theorem create_box_short_token_aborts_witness:
  "get_main_region [ex_region [ex_good_line, ex_short_field_line]] = Inr 0 \<and>
   ex_short_field_line \<in> set (region_lines ([ex_region [ex_good_line, ex_short_field_line]] ! 0)) \<and>
   ''100'' \<in> set (py_split_ws (line_coords ex_short_field_line)) \<and>
   length (get_coord ''100'') < 2 \<and>
   (\<exists>e. create_box [ex_region [ex_good_line, ex_short_field_line]] = Inl e)"
proof -
  have m: "get_main_region [ex_region [ex_good_line, ex_short_field_line]] = Inr 0"
    by (simp add: get_main_region_def ex_region_def)
  have l: "ex_short_field_line \<in> set (region_lines ([ex_region [ex_good_line, ex_short_field_line]] ! 0))"
    by (simp add: ex_region_def)
  have t: "''100'' \<in> set (py_split_ws (line_coords ex_short_field_line))"
    by (simp add: ex_short_field_line_def parse_eval)
  have s: "length (get_coord ''100'') < 2"
    by (simp add: get_coord_def)
  from create_box_short_token_aborts
    [of "[ex_region [ex_good_line, ex_short_field_line]]" 0 ex_short_field_line "''100''",
     THEN conjunct1] m l t s
  have "\<exists>e. create_box [ex_region [ex_good_line, ex_short_field_line]] = Inl e"
    by blast
  with m l t s show ?thesis by blast
qed

text \<open>
  A document with a well-formed line and a line with the token \<^verbatim>\<open>100\<close> ends with
  IndexError, where the well-formed line alone gives one box; with the token
  \<^verbatim>\<open>100,620,7\<close> instead, both lines give a box and nothing is raised.
\<close>

theorem create_box_short_token_aborts_counterexample:
  "line_coords ex_short_field_line = ''100,620 900,620 900,580 100'' \<and>
   get_coord ''100'' = [''100''] \<and>
   create_box [ex_region [ex_good_line, ex_short_field_line]] = Inl IndexError \<and>
   (\<exists>boxes. create_box [ex_region [ex_good_line]] = Inr boxes \<and> length boxes = 1) \<and>
   line_coords ex_long_field_line = ''100,620,7 900,620 900,580 100,580'' \<and>
   get_coord ''100,620,7'' = [''100'', ''620'', ''7''] \<and>
   (\<exists>boxes. create_box [ex_region [ex_good_line, ex_long_field_line]] = Inr boxes \<and>
      length boxes = 2)"
proof -
  have a: "line_coords ex_short_field_line = ''100,620 900,620 900,580 100''"
      "line_coords ex_long_field_line = ''100,620,7 900,620 900,580 100,580''"
    by (simp_all add: ex_short_field_line_def ex_long_field_line_def)
  have b: "get_coord ''100'' = [''100'']" "get_coord ''100,620,7'' = [''100'', ''620'', ''7'']"
    by (simp_all add: get_coord_def)
  show ?thesis
    by (simp add: a b ex_create_box_short ex_create_box_good ex_create_box_long)
qed

subsection \<open>Average height\<close>

text \<open>
  C10: for a polygon with fewer than two vertices the pair count is zero and
  \<^verbatim>\<open>get_avg_height\<close> raises ZeroDivisionError instead of returning a value; it
  returns a value exactly when the polygon has at least two vertices.
\<close>

theorem get_avg_height_total_iff:
  "(length poly < 2 \<longrightarrow> get_avg_height poly = Inl ZeroDivisionError) \<and>
   ((\<exists>h. get_avg_height poly = Inr h) \<longleftrightarrow> 2 \<le> length poly)"
proof -
  have "length poly div 2 = 0 \<longleftrightarrow> length poly < 2"
    by auto
  then show ?thesis
    by (auto simp: get_avg_height_def Let_def)
qed

theorem get_avg_height_total_iff_witness:
  "get_avg_height [(3, 7)] = Inl ZeroDivisionError \<and>
   get_avg_height [] = Inl ZeroDivisionError \<and>
   get_avg_height [(0, 10), (5, 10), (5, 0), (0, 1)] = Inr 9"
proof -
  have "get_avg_height [(0, 10), (5, 10), (5, 0), (0, 1)] = Inr 9"
    by (simp add: get_avg_height_def)
  then show ?thesis
    using get_avg_height_total_iff [of "[(3, 7)]"] get_avg_height_total_iff [of "[]"]
      get_avg_height_total_iff [of "[(0, 10), (5, 10), (5, 0), (0, 1)]"]
    by simp
qed

end
